theory Spec2Isabelle
  imports Main
begin

section \<open>Errors (pkg/types/errors.go)\<close>

datatype ErrorCode =
    ErrCodeConnection | ErrCodeAuthentication | ErrCodeBudgetExceeded
  | ErrCodeConcurrencyLimit | ErrCodeRateLimit | ErrCodeSession
  | ErrCodeToolExecution | ErrCodeTimeout | ErrCodeValidation
  | ErrCodeProtocol | ErrCodeUnknown

text \<open>
  A Go \<open>error\<close> value is either a \<open>*ChuckyError\<close> (code, message, wrapped error; the
  \<open>Details\<close> map is nil in every error the transport and the session build) or an error
  made outside the SDK (by the dialer, the socket, the context or a tool handler), of
  which only the text of \<open>Error()\<close> is kept.
\<close>

datatype error =
    ChuckyError ErrorCode string "error option"
  | External string

definition NewChuckyError :: "ErrorCode \<Rightarrow> string \<Rightarrow> error" where
  "NewChuckyError code message = ChuckyError code message None"

text \<open>\<open>Wrap\<close> is a method of \<open>*ChuckyError\<close>; the second equation only makes it total.\<close>

fun Wrap :: "error \<Rightarrow> error \<Rightarrow> error" where
  "Wrap (ChuckyError code message _) err = ChuckyError code message (Some err)"
| "Wrap (External s) err = External s"

definition ConnectionError :: "string \<Rightarrow> error" where
  "ConnectionError message = NewChuckyError ErrCodeConnection message"

definition SessionError :: "string \<Rightarrow> error" where
  "SessionError message = NewChuckyError ErrCodeSession message"

definition TimeoutError :: "string \<Rightarrow> error" where
  "TimeoutError message = NewChuckyError ErrCodeTimeout message"

definition ProtocolError :: "string \<Rightarrow> error" where
  "ProtocolError message = NewChuckyError ErrCodeProtocol message"

fun ErrorCode_text :: "ErrorCode \<Rightarrow> string" where
  "ErrorCode_text ErrCodeConnection = ''CONNECTION_ERROR''"
| "ErrorCode_text ErrCodeAuthentication = ''AUTHENTICATION_ERROR''"
| "ErrorCode_text ErrCodeBudgetExceeded = ''BUDGET_EXCEEDED''"
| "ErrorCode_text ErrCodeConcurrencyLimit = ''CONCURRENCY_LIMIT''"
| "ErrorCode_text ErrCodeRateLimit = ''RATE_LIMIT''"
| "ErrorCode_text ErrCodeSession = ''SESSION_ERROR''"
| "ErrorCode_text ErrCodeToolExecution = ''TOOL_EXECUTION_ERROR''"
| "ErrorCode_text ErrCodeTimeout = ''TIMEOUT_ERROR''"
| "ErrorCode_text ErrCodeValidation = ''VALIDATION_ERROR''"
| "ErrorCode_text ErrCodeProtocol = ''PROTOCOL_ERROR''"
| "ErrorCode_text ErrCodeUnknown = ''UNKNOWN_ERROR''"

text \<open>\<open>(*ChuckyError).Error()\<close>: \<open>[code] message\<close>, followed by \<open>: err\<close> when an error is wrapped.\<close>

fun Error_text :: "error \<Rightarrow> string" where
  "Error_text (ChuckyError code message None) =
     ''['' @ ErrorCode_text code @ ''] '' @ message"
| "Error_text (ChuckyError code message (Some err)) =
     ''['' @ ErrorCode_text code @ ''] '' @ message @ '': '' @ Error_text err"
| "Error_text (External s) = s"


section \<open>Messages (pkg/types/messages.go)\<close>

text \<open>A decoded JSON value stands for a Go value of type \<open>any\<close> that came off the wire.\<close>

datatype json =
    JNull | JBool bool | JNum int | JStr string
  | JArr "json list" | JObj "(string \<times> json) list"

text \<open>
  A Go value of type \<open>any\<close> that the caller supplies: one that \<open>json.Marshal\<close> encodes,
  given by its encoded form (nil is \<open>Encodable JNull\<close>), or one that it rejects (a
  channel, a function, a number that is not finite).
\<close>

datatype any = Encodable json | Unencodable

text \<open>
  A \<open>float64\<close>: \<open>Finite m e\<close> is the finite value \<open>m * 2 ^ e\<close>; \<open>json.Marshal\<close> rejects the
  three others.
\<close>

datatype float64 = Finite int int | PosInf | NegInf | NaN

definition ControlActionReady :: string where
  "ControlActionReady = ''ready''"
definition ControlActionSessionInfo :: string where
  "ControlActionSessionInfo = ''session_info''"
definition ControlActionEndInput :: string where
  "ControlActionEndInput = ''end_input''"
definition ControlActionClose :: string where
  "ControlActionClose = ''close''"

definition SystemSubtypeInit :: string where
  "SystemSubtypeInit = ''init''"
definition SystemSubtypeCompactBoundary :: string where
  "SystemSubtypeCompactBoundary = ''compact_boundary''"

definition RoleUser :: string where
  "RoleUser = ''user''"

text \<open>
  The inbound variants that \<open>ParseIncomingMessage\<close> produces. The \<open>Type\<close> tag of each
  struct is the constructor. The variants the session only forwards carry their decoded
  body; the four it inspects carry their fields:
  \<open>SDKSystemMessage Subtype UUID SessionID Data\<close>, \<open>ControlEnvelope Action Data\<close>,
  \<open>ErrorEnvelope Message Code Details\<close>, \<open>ToolCallEnvelope CallID ToolName Input\<close>,
  \<open>GenericMessage RawType Data\<close>.
\<close>

datatype IncomingMessage =
    SDKAssistantMessage json
  | SDKResultMessage json
  | SDKSystemMessage string string string json
  | SDKPartialAssistantMessage json
  | ControlEnvelope string json
  | ErrorEnvelope string string json
  | PongEnvelope int
  | ToolCallEnvelope string string json
  | GenericMessage string json

text \<open>
  Tool results (\<open>ToolResult.Content\<close> is \<open>[]any\<close>): the content structs of the SDK, and
  \<open>ForeignContent ok\<close> for any other Go value a handler may put there, \<open>ok\<close> telling
  whether \<open>json.Marshal\<close> accepts it.
\<close>

datatype ToolContent =
    TextToolContent string string
  | ImageToolContent string string string
  | ResourceToolContent string string string string string
  | ForeignContent bool

record ToolResult =
  Content :: "ToolContent list"
  IsError :: bool

text \<open>
  The wire form of an MCP server that \<open>mcpServerToMap\<close> builds:
  \<open>ToolMap name description inputSchema executeInClient\<close>.
\<close>

datatype ToolMap = ToolMap string string any bool

datatype ServerMap =
    ClientToolsMap string string "ToolMap list"
  | StdioMap string string "string list" "(string \<times> string) list"
  | SSEMap string string "(string \<times> string) list"
  | HTTPMap string string "(string \<times> string) list"

text \<open>
  \<open>InitPayload\<close>, field by field. \<open>McpServers\<close> is nil or the list of wire forms;
  \<open>OutputFormat\<close> is a pointer to a type and a schema.
\<close>

record InitPayload =
  ip_Model :: string
  ip_FallbackModel :: string
  ip_SystemPrompt :: any
  ip_MaxTurns :: int
  ip_MaxBudgetUsd :: float64
  ip_MaxThinkingTokens :: int
  ip_Tools :: any
  ip_McpServers :: "ServerMap list option"
  ip_PermissionMode :: string
  ip_OutputFormat :: "(string \<times> any) option"
  ip_IncludePartialMessages :: bool
  ip_Env :: "(string \<times> string) list"
  ip_SessionID :: string
  ip_ForkSession :: bool
  ip_ResumeSessionAt :: string
  ip_Continue :: bool

text \<open>
  The outbound variants: \<open>SDKUserMessage UUID SessionID Role Content\<close> (its
  \<open>ParentToolUseID\<close> is always nil), \<open>ControlEnvelopeOut Action\<close> (the Go type is
  \<open>ControlEnvelope\<close>, here sent with no data), \<open>PingEnvelope Timestamp\<close>,
  \<open>ToolResultEnvelope CallID Result\<close> (the result is a pointer, possibly nil).
\<close>

datatype OutgoingMessage =
    InitEnvelope InitPayload
  | SDKUserMessage string string string string
  | ControlEnvelopeOut string
  | PingEnvelope int
  | ToolResultEnvelope string "ToolResult option"

text \<open>
  \<open>json.Marshal\<close> is outside the repository. It fails on a message that holds a value
  it does not encode: in an Init envelope the values of type \<open>any\<close> (system prompt,
  tools, schemas) and the budget, a \<open>float64\<close>; in a tool result the contents. The other
  messages hold strings, integers and booleans only.
\<close>

fun any_marshals :: "any \<Rightarrow> bool" where
  "any_marshals (Encodable v) = True"
| "any_marshals Unencodable = False"

fun float64_marshals :: "float64 \<Rightarrow> bool" where
  "float64_marshals (Finite m e) = True"
| "float64_marshals _ = False"

fun content_marshals :: "ToolContent \<Rightarrow> bool" where
  "content_marshals (ForeignContent ok) = ok"
| "content_marshals _ = True"

fun tool_marshals :: "ToolMap \<Rightarrow> bool" where
  "tool_marshals (ToolMap name description inputSchema executeInClient) =
     any_marshals inputSchema"

fun server_marshals :: "ServerMap \<Rightarrow> bool" where
  "server_marshals (ClientToolsMap name version tools) = list_all tool_marshals tools"
| "server_marshals _ = True"

definition payload_marshals :: "InitPayload \<Rightarrow> bool" where
  "payload_marshals p =
     (any_marshals (ip_SystemPrompt p) \<and> float64_marshals (ip_MaxBudgetUsd p) \<and>
      any_marshals (ip_Tools p) \<and>
      (case ip_McpServers p of None \<Rightarrow> True | Some servers \<Rightarrow> list_all server_marshals servers) \<and>
      (case ip_OutputFormat p of None \<Rightarrow> True | Some (ty, schema) \<Rightarrow> any_marshals schema))"

fun marshals :: "OutgoingMessage \<Rightarrow> bool" where
  "marshals (InitEnvelope p) = payload_marshals p"
| "marshals (ToolResultEnvelope callID (Some r)) = list_all content_marshals (Content r)"
| "marshals _ = True"


section \<open>Transport (pkg/transport/transport.go, websocket.go)\<close>

datatype ConnectionStatus =
    StatusDisconnected | StatusConnecting | StatusConnected
  | StatusReconnecting | StatusError

text \<open>Which callbacks of \<open>TransportEvents\<close> are non-nil.\<close>

record TransportEvents =
  has_OnMessage :: bool
  has_OnClose :: bool
  has_OnStatusChange :: bool
  has_OnError :: bool

text \<open>A callback the transport invokes, for its owner to run.\<close>

datatype TransportCall =
    CallOnStatusChange ConnectionStatus
  | CallOnError error

text \<open>A frame written to the socket: a text frame with an encoded message, or a close frame.\<close>

datatype Frame = TextMessage OutgoingMessage | CloseMessage

text \<open>
  \<open>WebSocketTransport\<close>. The socket (\<open>*websocket.Conn\<close>) is outside the repository:
  \<open>conn\<close> tells whether the handle is non-nil, \<open>wire\<close> lists the frames written to the
  socket so far, oldest first, and \<open>net_ok\<close> tells whether the socket accepts a write
  (\<open>WriteMessage\<close> returns no error). A channel that is only ever closed is the flag
  "closed"; a \<open>sync.Once\<close> is the flag "done". The URL, token, timeouts and debug flag
  decide only the outcome of the dial and what is printed, and are left out.
\<close>

record WebSocketTransport =
  conn :: bool
  status :: ConnectionStatus
  t_handlers :: TransportEvents
  t_readyCh :: bool
  t_readyOnce :: bool
  t_closeCh :: bool
  t_closeOnce :: bool
  msgQueue :: "OutgoingMessage list"
  wire :: "Frame list"
  net_ok :: bool

definition NewWebSocketTransport :: "bool \<Rightarrow> WebSocketTransport" where
  "NewWebSocketTransport net =
     \<lparr> conn = False, status = StatusDisconnected,
       t_handlers = \<lparr> has_OnMessage = False, has_OnClose = False,
                      has_OnStatusChange = False, has_OnError = False \<rparr>,
       t_readyCh = False, t_readyOnce = False, t_closeCh = False, t_closeOnce = False,
       msgQueue = [], wire = [], net_ok = net \<rparr>"

definition SetEventHandlers :: "TransportEvents \<Rightarrow> WebSocketTransport \<Rightarrow> WebSocketTransport" where
  "SetEventHandlers h t = t\<lparr>t_handlers := h\<rparr>"

definition Status :: "WebSocketTransport \<Rightarrow> ConnectionStatus" where
  "Status t = status t"

definition setStatus ::
  "ConnectionStatus \<Rightarrow> WebSocketTransport \<Rightarrow> WebSocketTransport \<times> TransportCall list" where
  "setStatus st t =
     (t\<lparr>status := st\<rparr>,
      if status t \<noteq> st \<and> has_OnStatusChange (t_handlers t)
      then [CallOnStatusChange st] else [])"

text \<open>
  \<open>sendImmediate\<close>: encode, then write to the socket. Returns the error, if any. The
  errors of the encoder and of the socket that it wraps are not modelled; a fixed word
  stands for their text.
\<close>

definition sendImmediate ::
  "OutgoingMessage \<Rightarrow> WebSocketTransport \<Rightarrow> WebSocketTransport \<times> error option" where
  "sendImmediate msg t =
     (if \<not> marshals msg then
        (t, Some (Wrap (ProtocolError ''failed to marshal message'') (External ''json'')))
      else if \<not> conn t then (t, Some (ConnectionError ''not connected''))
      else if \<not> net_ok t then
        (t, Some (Wrap (ConnectionError ''failed to send message'') (External ''write'')))
      else (t\<lparr>wire := wire t @ [TextMessage msg]\<rparr>, None))"

text \<open>
  \<open>WebSocketTransport.Send\<close> (the suffix tells it from \<open>Session.Send\<close>): queue while
  connecting or without a handle, else write at once.
\<close>

definition Send_ws ::
  "OutgoingMessage \<Rightarrow> WebSocketTransport \<Rightarrow> WebSocketTransport \<times> error option" where
  "Send_ws msg t =
     (if status t = StatusConnecting \<or> \<not> conn t
      then (t\<lparr>msgQueue := msgQueue t @ [msg]\<rparr>, None)
      else sendImmediate msg t)"

text \<open>
  The loop of \<open>flushQueue\<close> over the queue it took: each message goes to
  \<open>sendImmediate\<close>, an error goes to \<open>OnError\<close> when that callback is set.
\<close>

fun flush_loop ::
  "OutgoingMessage list \<Rightarrow> WebSocketTransport \<Rightarrow> WebSocketTransport \<times> TransportCall list" where
  "flush_loop [] t = (t, [])"
| "flush_loop (msg # queue) t =
     (case sendImmediate msg t of
        (t1, None) \<Rightarrow> flush_loop queue t1
      | (t1, Some err) \<Rightarrow>
          (case flush_loop queue t1 of
             (t2, cs) \<Rightarrow>
               (t2, (if has_OnError (t_handlers t) then [CallOnError err] else []) @ cs)))"

definition flushQueue :: "WebSocketTransport \<Rightarrow> WebSocketTransport \<times> TransportCall list" where
  "flushQueue t = flush_loop (msgQueue t) (t\<lparr>msgQueue := []\<rparr>)"

text \<open>
  The outcome of building the URL and dialling, given by the environment: the URL does
  not parse, the dial fails, or a socket is returned.
\<close>

datatype DialResult = InvalidURL string | DialFailed string | Dialed

text \<open>
  \<open>WebSocketTransport.Connect\<close>. On success it also starts the read loop and the
  keep-alive loop, whose iterations are \<open>readLoop_iter\<close> and \<open>keepAlive_tick\<close> below.
\<close>

definition Connect_ws ::
  "DialResult \<Rightarrow> WebSocketTransport \<Rightarrow> WebSocketTransport \<times> TransportCall list \<times> error option" where
  "Connect_ws dial t =
     (case setStatus StatusConnecting t of (t1, c1) \<Rightarrow>
        (case dial of
           InvalidURL e \<Rightarrow>
             (case setStatus StatusError t1 of (t2, c2) \<Rightarrow>
                (t2, c1 @ c2, Some (Wrap (ConnectionError ''invalid URL'') (External e))))
         | DialFailed e \<Rightarrow>
             (case setStatus StatusError t1 of (t2, c2) \<Rightarrow>
                (t2, c1 @ c2, Some (Wrap (ConnectionError ''failed to connect'') (External e))))
         | Dialed \<Rightarrow>
             (case setStatus StatusConnected (t1\<lparr>conn := True\<rparr>) of (t2, c2) \<Rightarrow>
                (let t3 = (if t_readyOnce t2 then t2
                           else t2\<lparr>t_readyOnce := True, t_readyCh := True\<rparr>)
                 in case flushQueue t3 of (t4, c4) \<Rightarrow> (t4, c1 @ c2 @ c4, None)))))"

text \<open>
  \<open>WebSocketTransport.Disconnect\<close>: closes \<open>closeCh\<close> once, drops the handle, writes
  a close frame to the socket it held (a failed write is ignored), sets the status.
\<close>

definition Disconnect_ws ::
  "WebSocketTransport \<Rightarrow> WebSocketTransport \<times> TransportCall list \<times> error option" where
  "Disconnect_ws t =
     (let t1 = (if t_closeOnce t then t else t\<lparr>t_closeOnce := True, t_closeCh := True\<rparr>);
          had = conn t1;
          t2 = t1\<lparr>conn := False\<rparr>;
          t3 = (if had \<and> net_ok t2 then t2\<lparr>wire := wire t2 @ [CloseMessage]\<rparr> else t2)
      in case setStatus StatusDisconnected t3 of (t4, c4) \<Rightarrow> (t4, c4, None))"

text \<open>
  \<open>WaitForReady\<close> returns nil once \<open>readyCh\<close> is closed; while it is open the call
  blocks until the timeout and returns the timeout error.
\<close>

definition WaitForReady :: "WebSocketTransport \<Rightarrow> error option" where
  "WaitForReady t = (if t_readyCh t then None else Some (TimeoutError ''connection timeout''))"


section \<open>Tools and options (pkg/types)\<close>

text \<open>
  A tool handler takes the input map (\<open>None\<close> is the nil map) and returns a result
  pointer and an error. Handlers are taken to return and to act on nothing of the session.
\<close>

type_synonym ToolHandler =
  "(string \<times> json) list option \<Rightarrow> ToolResult option \<times> error option"

record ToolDefinition =
  td_Name :: string
  td_Description :: string
  td_InputSchema :: any
  td_ExecuteIn :: string
  td_Handler :: "ToolHandler option"

text \<open>
  \<open>McpClientToolsServer Name Version Tools\<close>, \<open>McpStdioServerConfig Name Command Args Env\<close>,
  \<open>McpSSEServerConfig Name URL Headers\<close>, \<open>McpHTTPServerConfig Name URL Headers\<close>.
\<close>

datatype McpServerDefinition =
    McpClientToolsServer string string "ToolDefinition list"
  | McpStdioServerConfig string string "string list" "(string \<times> string) list"
  | McpSSEServerConfig string string "(string \<times> string) list"
  | McpHTTPServerConfig string string "(string \<times> string) list"

text \<open>\<open>SessionOptions\<close>, with the fields of the \<open>BaseOptions\<close> it embeds first.\<close>

record SessionOptions =
  o_Model :: string
  o_FallbackModel :: string
  o_SystemPrompt :: any
  o_MaxTurns :: int
  o_MaxBudgetUsd :: float64
  o_MaxThinkingTokens :: int
  o_Tools :: any
  o_McpServers :: "McpServerDefinition list"
  o_PermissionMode :: string
  o_OutputFormat :: "(string \<times> any) option"
  o_IncludePartialMessages :: bool
  o_Env :: "(string \<times> string) list"
  o_SessionID :: string
  o_ForkSession :: bool
  o_ResumeSessionAt :: string
  o_Continue :: bool
  o_SettingSources :: "string list"

text \<open>The zero value \<open>SessionOptions{}\<close>.\<close>

definition empty_SessionOptions :: SessionOptions where
  "empty_SessionOptions =
     \<lparr> o_Model = [], o_FallbackModel = [], o_SystemPrompt = Encodable JNull, o_MaxTurns = 0,
       o_MaxBudgetUsd = Finite 0 0, o_MaxThinkingTokens = 0, o_Tools = Encodable JNull,
       o_McpServers = [], o_PermissionMode = [], o_OutputFormat = None,
       o_IncludePartialMessages = False, o_Env = [], o_SessionID = [], o_ForkSession = False,
       o_ResumeSessionAt = [], o_Continue = False, o_SettingSources = [] \<rparr>"


section \<open>Client (pkg/chucky/client.go)\<close>

text \<open>Which callbacks of \<open>ClientEventHandlers\<close> are non-nil.\<close>

record ClientEventHandlers =
  has_c_OnError :: bool
  has_OnSessionStart :: bool
  has_OnSessionEnd :: bool

text \<open>A user callback that was invoked, with its argument.\<close>

datatype Callback =
    SessionOnMessage IncomingMessage
  | SessionOnError error
  | SessionOnClose
  | ClientOnError error
  | ClientOnSessionStart string
  | ClientOnSessionEnd string

text \<open>
  \<open>Client\<close>. The registry maps a session identity to a \<open>*Session\<close>, a pointer, here the
  address of the session object. The client's options only configure the transports it
  creates (URL, token, timeouts, debug flag) and are left out with them.
\<close>

record Client =
  sessions :: "string \<rightharpoonup> nat"
  c_handlers :: ClientEventHandlers

definition NewClient :: Client where
  "NewClient =
     \<lparr> sessions = Map.empty,
       c_handlers = \<lparr> has_c_OnError = False, has_OnSessionStart = False,
                      has_OnSessionEnd = False \<rparr> \<rparr>"

definition On_client :: "ClientEventHandlers \<Rightarrow> Client \<Rightarrow> Client" where
  "On_client h c = c\<lparr>c_handlers := h\<rparr>"

definition removeSession :: "string \<Rightarrow> Client \<Rightarrow> Client \<times> Callback list" where
  "removeSession sid c =
     (c\<lparr>sessions := (sessions c)(sid := None)\<rparr>,
      if has_OnSessionEnd (c_handlers c) then [ClientOnSessionEnd sid] else [])"

definition notifySessionStart :: "string \<Rightarrow> Client \<Rightarrow> Callback list" where
  "notifySessionStart sid c =
     (if has_OnSessionStart (c_handlers c) then [ClientOnSessionStart sid] else [])"

definition notifyError :: "error \<Rightarrow> Client \<Rightarrow> Callback list" where
  "notifyError err c = (if has_c_OnError (c_handlers c) then [ClientOnError err] else [])"


section \<open>Session (pkg/chucky/session.go)\<close>

datatype SessionState =
    SessionStateIdle | SessionStateInitializing | SessionStateReady
  | SessionStateProcessing | SessionStateWaitingTool | SessionStateCompleted
  | SessionStateError

text \<open>Which callbacks of \<open>SessionEventHandlers\<close> are non-nil.\<close>

record SessionEventHandlers =
  has_s_OnMessage :: bool
  has_s_OnError :: bool
  has_s_OnClose :: bool

text \<open>
  \<open>Session\<close>. The two pointers it holds are the objects they point to: \<open>client\<close> is the
  owning client as it is now, \<open>transport\<close> the session's own transport. \<open>msgCh\<close> and
  \<open>errCh\<close> are the contents of the buffered channels (capacities 100 and 10), oldest
  first. Three fields are not in the struct: \<open>addr\<close>, the address of this session object
  (what the client's registry stores); \<open>parked\<close>, the message with which the read loop
  is blocked inside \<open>handleMessage\<close> on a full \<open>msgCh\<close>; and \<open>calls\<close>, the user
  callbacks invoked so far, oldest first.
\<close>

record Session =
  addr :: nat
  client :: Client
  transport :: WebSocketTransport
  options :: SessionOptions
  sessionID :: string
  state :: SessionState
  handlers :: SessionEventHandlers
  connected :: bool
  msgCh :: "IncomingMessage list"
  errCh :: "error list"
  closeCh :: bool
  closeOnce :: bool
  readyCh :: bool
  readyOnce :: bool
  initErr :: "error option"
  toolHandlers :: "string \<rightharpoonup> ToolHandler"
  parked :: "IncomingMessage option"
  calls :: "Callback list"

definition msgCh_cap :: nat where
  "msgCh_cap = 100"

definition errCh_cap :: nat where
  "errCh_cap = 10"

text \<open>
  A Go \<open>select\<close> takes one of the cases that are ready, chosen at random, and blocks
  when none is: \<open>ready\<close> lists the ready cases in the order of the source, \<open>pick\<close> is
  the random choice, \<open>None\<close> is blocking.
\<close>

definition select :: "nat \<Rightarrow> 'a list \<Rightarrow> 'a option" where
  "select pick ready =
     (if ready = [] then None else Some (ready ! (pick mod length ready)))"

definition ID :: "Session \<Rightarrow> string" where
  "ID s = sessionID s"

definition State :: "Session \<Rightarrow> SessionState" where
  "State s = state s"

definition setState :: "SessionState \<Rightarrow> Session \<Rightarrow> Session" where
  "setState st s = s\<lparr>state := st\<rparr>"

definition On :: "SessionEventHandlers \<Rightarrow> Session \<Rightarrow> Session" where
  "On h s = s\<lparr>handlers := h\<rparr>"

text \<open>\<open>extractToolHandlers\<close>: every tool of a client-tools server that has a handler.\<close>

fun extract_tools :: "ToolDefinition list \<Rightarrow> (string \<rightharpoonup> ToolHandler) \<Rightarrow> (string \<rightharpoonup> ToolHandler)" where
  "extract_tools [] m = m"
| "extract_tools (tool # tools) m =
     extract_tools tools
       (case td_Handler tool of None \<Rightarrow> m | Some h \<Rightarrow> m(td_Name tool \<mapsto> h))"

fun extract_servers ::
  "McpServerDefinition list \<Rightarrow> (string \<rightharpoonup> ToolHandler) \<Rightarrow> (string \<rightharpoonup> ToolHandler)" where
  "extract_servers [] m = m"
| "extract_servers (McpClientToolsServer name version tools # servers) m =
     extract_servers servers (extract_tools tools m)"
| "extract_servers (_ # servers) m = extract_servers servers m"

definition extractToolHandlers :: "Session \<Rightarrow> Session" where
  "extractToolHandlers s =
     s\<lparr>toolHandlers := extract_servers (o_McpServers (options s)) (toolHandlers s)\<rparr>"

definition newSession ::
  "Client \<Rightarrow> WebSocketTransport \<Rightarrow> SessionOptions \<Rightarrow> nat \<Rightarrow> Session" where
  "newSession c t opts a =
     (let s = \<lparr> addr = a, client = c, transport = t, options = opts, sessionID = [],
                state = SessionStateIdle,
                handlers = \<lparr> has_s_OnMessage = False, has_s_OnError = False,
                             has_s_OnClose = False \<rparr>,
                connected = False, msgCh = [], errCh = [], closeCh = False,
                closeOnce = False, readyCh = False, readyOnce = False, initErr = None,
                toolHandlers = Map.empty, parked = None, calls = [] \<rparr>;
          s1 = extractToolHandlers s
      in s1\<lparr>transport :=
              SetEventHandlers
                \<lparr> has_OnMessage = True, has_OnClose = True, has_OnStatusChange = True,
                  has_OnError = True \<rparr> (transport s1)\<rparr>)"

text \<open>
  \<open>handleError\<close>: a non-blocking send to \<open>errCh\<close> (dropped when the buffer is full),
  then the client's and the session's error callbacks.
\<close>

definition handleError :: "error \<Rightarrow> Session \<Rightarrow> Session" where
  "handleError err s =
     (let s1 = (if length (errCh s) < errCh_cap then s\<lparr>errCh := errCh s @ [err]\<rparr> else s)
      in s1\<lparr>calls := calls s1 @ notifyError err (client s1)
                     @ (if has_s_OnError (handlers s1) then [SessionOnError err] else [])\<rparr>)"

definition handleStatusChange :: "ConnectionStatus \<Rightarrow> Session \<Rightarrow> Session" where
  "handleStatusChange st s = s"

text \<open>The session runs the callbacks its transport invoked during a call, in order.\<close>

fun run_calls :: "TransportCall list \<Rightarrow> Session \<Rightarrow> Session" where
  "run_calls [] s = s"
| "run_calls (CallOnStatusChange st # cs) s = run_calls cs (handleStatusChange st s)"
| "run_calls (CallOnError err # cs) s = run_calls cs (handleError err s)"

text \<open>\<open>s.transport.Send(msg)\<close>, as seen from the session.\<close>

definition transport_Send :: "OutgoingMessage \<Rightarrow> Session \<Rightarrow> Session \<times> error option" where
  "transport_Send msg s =
     (case Send_ws msg (transport s) of (t, r) \<Rightarrow> (s\<lparr>transport := t\<rparr>, r))"

subsection \<open>The handshake request\<close>

fun mcpServerToMap :: "McpServerDefinition \<Rightarrow> ServerMap option" where
  "mcpServerToMap (McpClientToolsServer name version tools) =
     Some (ClientToolsMap name version
       (map (\<lambda>tool. ToolMap (td_Name tool) (td_Description tool) (td_InputSchema tool)
                      (td_Handler tool \<noteq> None)) tools))"
| "mcpServerToMap (McpStdioServerConfig name command args env) =
     Some (StdioMap name command args env)"
| "mcpServerToMap (McpSSEServerConfig name url headers) = Some (SSEMap name url headers)"
| "mcpServerToMap (McpHTTPServerConfig name url headers) = Some (HTTPMap name url headers)"

text \<open>
  \<open>sendInit\<close>: first the Init envelope it builds from the options (no session identity
  is put in it), then the send.
\<close>

definition init_envelope :: "Session \<Rightarrow> OutgoingMessage" where
  "init_envelope s =
     (let mcpServers =
            (if length (o_McpServers (options s)) > 0
             then Some (List.map_filter mcpServerToMap (o_McpServers (options s)))
             else None)
      in InitEnvelope
           \<lparr> ip_Model = o_Model (options s),
             ip_FallbackModel = o_FallbackModel (options s),
             ip_SystemPrompt = o_SystemPrompt (options s),
             ip_MaxTurns = o_MaxTurns (options s),
             ip_MaxBudgetUsd = o_MaxBudgetUsd (options s),
             ip_MaxThinkingTokens = o_MaxThinkingTokens (options s),
             ip_Tools = o_Tools (options s),
             ip_McpServers = mcpServers,
             ip_PermissionMode = o_PermissionMode (options s),
             ip_OutputFormat = o_OutputFormat (options s),
             ip_IncludePartialMessages = o_IncludePartialMessages (options s),
             ip_Env = o_Env (options s),
             ip_SessionID = [],
             ip_ForkSession = o_ForkSession (options s),
             ip_ResumeSessionAt = o_ResumeSessionAt (options s),
             ip_Continue = o_Continue (options s) \<rparr>)"

definition sendInit :: "Session \<Rightarrow> Session \<times> error option" where
  "sendInit s = transport_Send (init_envelope s) s"

subsection \<open>Inbound messages\<close>

text \<open>
  \<open>handleToolCall\<close>, on the fields of the call's payload. An input that is not a map is
  encoded and decoded again into a map, which leaves the nil map.
\<close>

definition handleToolCall :: "string \<Rightarrow> string \<Rightarrow> json \<Rightarrow> Session \<Rightarrow> Session" where
  "handleToolCall callID toolName input s =
     (let s1 = setState SessionStateWaitingTool s;
          result =
            (case toolHandlers s1 toolName of
               None \<Rightarrow>
                 Some \<lparr> Content = [TextToolContent ''text'' (''Tool not found: '' @ toolName)],
                        IsError = True \<rparr>
             | Some handler \<Rightarrow>
                 (case handler (case input of JObj v \<Rightarrow> Some v | _ \<Rightarrow> None) of
                    (r, Some err) \<Rightarrow>
                      Some \<lparr> Content = [TextToolContent ''text''
                                          (''Tool execution error: '' @ Error_text err)],
                             IsError = True \<rparr>
                  | (r, None) \<Rightarrow> r));
          resultMsg = ToolResultEnvelope callID result
      in case transport_Send resultMsg s1 of
           (s2, Some err) \<Rightarrow> setState SessionStateProcessing (handleError err s2)
         | (s2, None) \<Rightarrow> setState SessionStateProcessing s2)"

text \<open>
  The first part of \<open>handleMessage\<close>, run while the session is not connected: the
  handshake signals. The flag tells that \<open>handleMessage\<close> returns at once.
\<close>

definition signal_ready :: "Session \<Rightarrow> Session" where
  "signal_ready s = (if readyOnce s then s else s\<lparr>readyOnce := True, readyCh := True\<rparr>)"

fun ready_signals :: "IncomingMessage \<Rightarrow> Session \<Rightarrow> Session \<times> bool" where
  "ready_signals (ControlEnvelope action data) s =
     (if action = ControlActionReady \<or> action = ControlActionSessionInfo
      then (signal_ready s, True) else (s, False))"
| "ready_signals (SDKSystemMessage subtype uuid sid data) s =
     (if subtype = SystemSubtypeInit
      then (signal_ready (if sid \<noteq> [] then s\<lparr>sessionID := sid\<rparr> else s), False)
      else (s, False))"
| "ready_signals (ErrorEnvelope message code details) s =
     (signal_ready (s\<lparr>initErr := Some (SessionError message)\<rparr>), False)"
| "ready_signals _ s = (s, False)"

definition notify_OnMessage :: "IncomingMessage \<Rightarrow> Session \<Rightarrow> Session" where
  "notify_OnMessage msg s =
     (if has_s_OnMessage (handlers s) then s\<lparr>calls := calls s @ [SessionOnMessage msg]\<rparr>
      else s)"

text \<open>
  The end of \<open>handleMessage\<close>: the \<open>select\<close> that sends to \<open>msgCh\<close> or sees \<open>closeCh\<close>
  closed, then the message callback. When the buffer is full and the session is open the
  read loop stays blocked there with the message. First what each case does, then the
  choice.
\<close>

datatype ForwardCase = CaseSend | CaseClosed

fun forwarded :: "ForwardCase option \<Rightarrow> IncomingMessage \<Rightarrow> Session \<Rightarrow> Session" where
  "forwarded None msg s = s\<lparr>parked := Some msg\<rparr>"
| "forwarded (Some CaseSend) msg s = notify_OnMessage msg (s\<lparr>msgCh := msgCh s @ [msg]\<rparr>)"
| "forwarded (Some CaseClosed) msg s = notify_OnMessage msg s"

definition forward :: "nat \<Rightarrow> IncomingMessage \<Rightarrow> Session \<Rightarrow> Session" where
  "forward pick msg s =
     forwarded
       (select pick ((if length (msgCh s) < msgCh_cap then [CaseSend] else [])
                     @ (if closeCh s then [CaseClosed] else []))) msg s"

definition handleMessage :: "nat \<Rightarrow> IncomingMessage \<Rightarrow> Session \<Rightarrow> Session" where
  "handleMessage pick msg s =
     (case (if \<not> connected s then ready_signals msg s else (s, False)) of
        (s1, True) \<Rightarrow> s1
      | (s1, False) \<Rightarrow>
          (case msg of
             ToolCallEnvelope callID toolName input \<Rightarrow> handleToolCall callID toolName input s1
           | _ \<Rightarrow> forward pick msg s1))"

subsection \<open>Close\<close>

text \<open>
  \<open>Close\<close>: the body runs once. Closing \<open>closeCh\<close> releases a read loop blocked in
  \<open>handleMessage\<close>, which goes on to the message callback. The results of the
  transport's \<open>Send\<close> and \<open>Disconnect\<close> are dropped.
\<close>

definition Close :: "Session \<Rightarrow> Session" where
  "Close s =
     (if closeOnce s then s
      else
        (let s1 = s\<lparr>closeOnce := True, closeCh := True\<rparr>;
             s2 = (case parked s1 of None \<Rightarrow> s1
                   | Some msg \<Rightarrow> notify_OnMessage msg (s1\<lparr>parked := None\<rparr>));
             s3 = fst (transport_Send (ControlEnvelopeOut ControlActionClose) s2)
         in case Disconnect_ws (transport s3) of
              (t, tcalls, r) \<Rightarrow>
                (let s4 = run_calls tcalls (s3\<lparr>transport := t\<rparr>)
                 in case removeSession (sessionID s4) (client s4) of
                      (c, ccalls) \<Rightarrow>
                        s4\<lparr>client := c,
                           calls := calls s4 @ ccalls
                             @ (if has_s_OnClose (handlers s4) then [SessionOnClose] else [])\<rparr>)))"

definition handleClose :: "int \<Rightarrow> string \<Rightarrow> Session \<Rightarrow> Session" where
  "handleClose code reason s = Close s"

subsection \<open>The transport's background loops, run against the session's callbacks\<close>

text \<open>What \<open>conn.ReadMessage\<close> followed by \<open>ParseIncomingMessage\<close> gives the read loop.\<close>

datatype ReadResult = Message IncomingMessage | Malformed string | ReadFailed string

definition CloseAbnormalClosure :: int where
  "CloseAbnormalClosure = 1006"

text \<open>
  One iteration of \<open>readLoop\<close>. The loop has returned once \<open>closeCh\<close> of the transport is
  closed or the handle is nil, and makes no step while it is blocked in \<open>handleMessage\<close>.
\<close>

definition readLoop_iter :: "nat \<Rightarrow> ReadResult \<Rightarrow> Session \<Rightarrow> Session" where
  "readLoop_iter pick rr s =
     (if t_closeCh (transport s) \<or> \<not> conn (transport s) \<or> parked s \<noteq> None then s
      else
        (case rr of
           ReadFailed e \<Rightarrow>
             (let s1 = (if has_OnError (t_handlers (transport s))
                        then handleError (Wrap (ConnectionError ''read error'') (External e)) s
                        else s)
              in if has_OnClose (t_handlers (transport s1))
                 then handleClose CloseAbnormalClosure e s1 else s1)
         | Malformed e \<Rightarrow>
             (if has_OnError (t_handlers (transport s))
              then handleError (Wrap (ProtocolError ''failed to parse message'') (External e)) s
              else s)
         | Message msg \<Rightarrow>
             (if has_OnMessage (t_handlers (transport s)) then handleMessage pick msg s
              else s)))"

text \<open>One tick of \<open>keepAliveLoop\<close>, with the timestamp of the ping.\<close>

definition keepAlive_tick :: "int \<Rightarrow> Session \<Rightarrow> Session" where
  "keepAlive_tick ts s =
     (if t_closeCh (transport s) then s
      else
        (case transport_Send (PingEnvelope ts) s of
           (s1, Some err) \<Rightarrow>
             (if has_OnError (t_handlers (transport s1)) then handleError err s1 else s1)
         | (s1, None) \<Rightarrow> s1))"

fun readLoop_run :: "(nat \<times> ReadResult) list \<Rightarrow> Session \<Rightarrow> Session" where
  "readLoop_run [] s = s"
| "readLoop_run ((pick, rr) # rest) s = readLoop_run rest (readLoop_iter pick rr s)"

subsection \<open>Connect and Send\<close>

datatype ConnectCase = CaseReady | CaseCtxDone | CaseSessionClosed

text \<open>How a call that may block ends: it is still blocked, or it returned this error (or nil).\<close>

datatype outcome = Blocked | Returned "error option"

text \<open>
  The \<open>select\<close> at the end of \<open>Connect\<close>, on which the caller waits for the handshake:
  first what each case does, then the choice. \<open>ctx\<close> is \<open>ctx.Err()\<close>: \<open>None\<close> while
  the context is live.
\<close>

fun Connect_selected :: "error option \<Rightarrow> ConnectCase option \<Rightarrow> Session \<Rightarrow> Session \<times> outcome" where
  "Connect_selected ctx None s = (s, Blocked)"
| "Connect_selected ctx (Some CaseReady) s =
     (case initErr s of
        Some err \<Rightarrow> (setState SessionStateError s, Returned (Some err))
      | None \<Rightarrow>
          (let s1 = setState SessionStateReady (s\<lparr>connected := True\<rparr>)
           in (s1\<lparr>calls := calls s1 @ notifySessionStart (sessionID s1) (client s1)\<rparr>,
               Returned None)))"
| "Connect_selected ctx (Some CaseCtxDone) s = (setState SessionStateError s, Returned ctx)"
| "Connect_selected ctx (Some CaseSessionClosed) s =
     (setState SessionStateError s,
      Returned (Some (SessionError ''session closed during initialization'')))"

definition Connect_wait :: "error option \<Rightarrow> nat \<Rightarrow> Session \<Rightarrow> Session \<times> outcome" where
  "Connect_wait ctx pick s =
     Connect_selected ctx
       (select pick ((if readyCh s then [CaseReady] else [])
                     @ (if ctx \<noteq> None then [CaseCtxDone] else [])
                     @ (if closeCh s then [CaseSessionClosed] else []))) s"

text \<open>
  \<open>Connect\<close>. \<open>dial\<close> is the outcome of the dial; \<open>arrivals\<close> are the iterations the read
  loop makes while the caller waits in the \<open>select\<close>; \<open>ctx\<close> and \<open>pick\<close> are as in
  \<open>Connect_wait\<close>.
\<close>

definition Connect ::
  "DialResult \<Rightarrow> (nat \<times> ReadResult) list \<Rightarrow> error option \<Rightarrow> nat \<Rightarrow> Session
     \<Rightarrow> Session \<times> outcome" where
  "Connect dial arrivals ctx pick s =
     (if connected s then (s, Returned None)
      else
        (let s1 = setState SessionStateInitializing s
         in case Connect_ws dial (transport s1) of
              (t, tcalls, Some err) \<Rightarrow>
                (setState SessionStateError (run_calls tcalls (s1\<lparr>transport := t\<rparr>)),
                 Returned (Some err))
            | (t, tcalls, None) \<Rightarrow>
                (let s2 = run_calls tcalls (s1\<lparr>transport := t\<rparr>)
                 in case WaitForReady (transport s2) of
                      Some err \<Rightarrow> (setState SessionStateError s2, Returned (Some err))
                    | None \<Rightarrow>
                        (case sendInit s2 of
                           (s3, Some err) \<Rightarrow> (setState SessionStateError s3, Returned (Some err))
                         | (s3, None) \<Rightarrow>
                             Connect_wait ctx pick (readLoop_run arrivals s3)))))"

text \<open>
  \<open>Send\<close>: the first four arguments are those of the \<open>Connect\<close> it may make, \<open>uuid\<close> is
  the value of \<open>uuid.New().String()\<close>.
\<close>

definition Send ::
  "DialResult \<Rightarrow> (nat \<times> ReadResult) list \<Rightarrow> error option \<Rightarrow> nat \<Rightarrow> string \<Rightarrow> string
     \<Rightarrow> Session \<Rightarrow> Session \<times> outcome" where
  "Send dial arrivals ctx pick uuid message s =
     (case (if \<not> connected s then Connect dial arrivals ctx pick s else (s, Returned None)) of
        (s1, Blocked) \<Rightarrow> (s1, Blocked)
      | (s1, Returned (Some err)) \<Rightarrow> (s1, Returned (Some err))
      | (s1, Returned None) \<Rightarrow>
          (let s2 = setState SessionStateProcessing s1;
               sid = (if sessionID s2 = [] then ''unknown'' else sessionID s2);
               msg = SDKUserMessage uuid sid RoleUser message
           in case transport_Send msg s2 of (s3, r) \<Rightarrow> (s3, Returned r)))"

subsection \<open>Stream\<close>

text \<open>
  The goroutine of one \<open>Stream\<close> call: \<open>out\<close> lists what it has handed to its consumer,
  \<open>out_closed\<close> tells that it has returned (its deferred \<open>close(out)\<close> has run), \<open>held\<close> is
  the message it took from \<open>msgCh\<close> and has not yet handed over.
\<close>

record StreamTask =
  out :: "IncomingMessage list"
  out_closed :: bool
  held :: "IncomingMessage option"

definition Stream :: StreamTask where
  "Stream = \<lparr> out = [], out_closed = False, held = None \<rparr>"

fun is_Result :: "IncomingMessage \<Rightarrow> bool" where
  "is_Result (SDKResultMessage body) = True"
| "is_Result _ = False"

datatype StreamCase = CaseCtx | CaseClose | CaseRecv | CaseOut

text \<open>
  The inner \<open>select\<close> of the loop, with the message in hand: hand it to the consumer
  (ready when \<open>consumer\<close> is receiving), or return on cancellation or close. After a
  \<open>Result\<close> message is handed over, the state becomes Completed and the goroutine
  returns. First what each case does, then the choice.
\<close>

fun Stream_handed ::
  "StreamCase option \<Rightarrow> IncomingMessage \<Rightarrow> Session \<times> StreamTask \<Rightarrow> Session \<times> StreamTask" where
  "Stream_handed None msg (s, g) = (s, g\<lparr>held := Some msg\<rparr>)"
| "Stream_handed (Some CaseOut) msg (s, g) =
     (if is_Result msg
      then (setState SessionStateCompleted s,
            g\<lparr>out := out g @ [msg], held := None, out_closed := True\<rparr>)
      else (s, g\<lparr>out := out g @ [msg], held := None\<rparr>))"
| "Stream_handed (Some _) msg (s, g) = (s, g\<lparr>held := None, out_closed := True\<rparr>)"

definition Stream_hand ::
  "nat \<Rightarrow> bool \<Rightarrow> bool \<Rightarrow> IncomingMessage \<Rightarrow> Session \<times> StreamTask \<Rightarrow> Session \<times> StreamTask" where
  "Stream_hand pick ctx_done consumer msg sg =
     Stream_handed
       (select pick ((if consumer then [CaseOut] else [])
                     @ (if ctx_done then [CaseCtx] else [])
                     @ (if closeCh (fst sg) then [CaseClose] else []))) msg sg"

text \<open>
  A receive from \<open>msgCh\<close> frees a slot of the buffer; a read loop blocked on the full
  buffer then puts its message there and goes on to the message callback. \<open>msgCh\<close> is
  never closed, so the receive never yields \<open>ok = false\<close>.
\<close>

definition recv_msgCh :: "Session \<Rightarrow> (IncomingMessage \<times> Session) option" where
  "recv_msgCh s =
     (case msgCh s of
        [] \<Rightarrow> None
      | msg # rest \<Rightarrow>
          Some (msg,
            (case parked s of
               None \<Rightarrow> s\<lparr>msgCh := rest\<rparr>
             | Some p \<Rightarrow> notify_OnMessage p (s\<lparr>msgCh := rest @ [p], parked := None\<rparr>))))"

text \<open>
  The outer \<open>select\<close> of the loop: return on cancellation or close, or take the next
  message and go to the inner \<open>select\<close>, or stay blocked.
\<close>

fun Stream_selected ::
  "StreamCase option \<Rightarrow> nat \<Rightarrow> bool \<Rightarrow> bool \<Rightarrow> Session \<times> StreamTask \<Rightarrow> Session \<times> StreamTask" where
  "Stream_selected None pick' ctx_done consumer (s, g) = (s, g)"
| "Stream_selected (Some CaseRecv) pick' ctx_done consumer (s, g) =
     (case recv_msgCh s of
        None \<Rightarrow> (s, g)
      | Some (msg, s1) \<Rightarrow> Stream_hand pick' ctx_done consumer msg (s1, g))"
| "Stream_selected (Some _) pick' ctx_done consumer (s, g) = (s, g\<lparr>out_closed := True\<rparr>)"

text \<open>
  One step of the goroutine: nothing once it has returned; the inner \<open>select\<close> when it
  holds a message; else the outer \<open>select\<close>.
\<close>

definition Stream_iter ::
  "nat \<Rightarrow> nat \<Rightarrow> bool \<Rightarrow> bool \<Rightarrow> Session \<times> StreamTask \<Rightarrow> Session \<times> StreamTask" where
  "Stream_iter pick pick' ctx_done consumer sg =
     (if out_closed (snd sg) then sg
      else
        (case held (snd sg) of
           Some msg \<Rightarrow> Stream_hand pick' ctx_done consumer msg sg
         | None \<Rightarrow>
             Stream_selected
               (select pick ((if ctx_done then [CaseCtx] else [])
                             @ (if closeCh (fst sg) then [CaseClose] else [])
                             @ (if msgCh (fst sg) \<noteq> [] then [CaseRecv] else [])))
               pick' ctx_done consumer sg))"

subsection \<open>Creating a session (client.go)\<close>

text \<open>
  \<open>CreateSession\<close>: \<open>a\<close> is the address of the new session object, \<open>net\<close> tells whether
  the socket it will dial accepts writes. The new session is registered under its
  identity at that moment.
\<close>

definition CreateSession :: "SessionOptions option \<Rightarrow> nat \<Rightarrow> bool \<Rightarrow> Client \<Rightarrow> Session" where
  "CreateSession opts a net c =
     (let opts1 = (case opts of None \<Rightarrow> empty_SessionOptions | Some v \<Rightarrow> v);
          t = NewWebSocketTransport net;
          session = newSession c t opts1 a
      in session\<lparr>client := c\<lparr>sessions := (sessions c)(ID session \<mapsto> a)\<rparr>\<rparr>)"

subsection \<open>Runs of a session\<close>

text \<open>
  What can happen to a session and the \<open>Stream\<close> goroutines started on it: an iteration
  of the read loop, a tick of the keep-alive loop, a call of a method by the user, a step
  of a \<open>Stream\<close> goroutine (given by its index), a change of the network.
\<close>

datatype Event =
    Read nat ReadResult
  | Tick int
  | CallConnect DialResult "(nat \<times> ReadResult) list" "error option" nat
  | CallSend DialResult "(nat \<times> ReadResult) list" "error option" nat string string
  | CallStream
  | StreamStep nat nat nat bool bool
  | CallClose
  | CallOn SessionEventHandlers
  | Net bool

fun step :: "Event \<Rightarrow> Session \<times> StreamTask list \<Rightarrow> Session \<times> StreamTask list" where
  "step (Read pick rr) (s, gs) = (readLoop_iter pick rr s, gs)"
| "step (Tick ts) (s, gs) = (keepAlive_tick ts s, gs)"
| "step (CallConnect dial arrivals ctx pick) (s, gs) =
     (fst (Connect dial arrivals ctx pick s), gs)"
| "step (CallSend dial arrivals ctx pick uuid message) (s, gs) =
     (fst (Send dial arrivals ctx pick uuid message s), gs)"
| "step CallStream (s, gs) = (s, gs @ [Stream])"
| "step (StreamStep i pick pick' ctx_done consumer) (s, gs) =
     (if i < length gs
      then (case Stream_iter pick pick' ctx_done consumer (s, gs ! i) of
              (s1, g1) \<Rightarrow> (s1, gs[i := g1]))
      else (s, gs))"
| "step CallClose (s, gs) = (Close s, gs)"
| "step (CallOn h) (s, gs) = (On h s, gs)"
| "step (Net b) (s, gs) = (s\<lparr>transport := (transport s)\<lparr>net_ok := b\<rparr>\<rparr>, gs)"

fun run :: "Event list \<Rightarrow> Session \<times> StreamTask list \<Rightarrow> Session \<times> StreamTask list" where
  "run [] sg = sg"
| "run (e # es) sg = run es (step e sg)"

text \<open>The messages that the events of a run bring to the read loop.\<close>

fun read_message :: "nat \<times> ReadResult \<Rightarrow> IncomingMessage list" where
  "read_message (pick, Message msg) = [msg]"
| "read_message _ = []"

fun inbound :: "Event \<Rightarrow> IncomingMessage list" where
  "inbound (Read pick rr) = read_message (pick, rr)"
| "inbound (CallConnect dial arrivals ctx pick) = concat (map read_message arrivals)"
| "inbound (CallSend dial arrivals ctx pick uuid message) = concat (map read_message arrivals)"
| "inbound _ = []"

text \<open>A System message of subtype init that carries a non-empty session identity.\<close>

fun assigns_identity :: "IncomingMessage \<Rightarrow> bool" where
  "assigns_identity (SDKSystemMessage subtype uuid sid data) =
     (subtype = SystemSubtypeInit \<and> sid \<noteq> [])"
| "assigns_identity _ = False"

subsection \<open>Observations\<close>

text \<open>
  How many Control envelopes with action close the transport has taken so far: written
  to the socket or put in its queue.
\<close>

definition close_envelopes :: "WebSocketTransport \<Rightarrow> nat" where
  "close_envelopes t =
     count_list (wire t) (TextMessage (ControlEnvelopeOut ControlActionClose))
     + count_list (msgQueue t) (ControlEnvelopeOut ControlActionClose)"


text \<open>
  The messages on which \<open>handleMessage\<close> closes \<open>readyCh\<close> while the session is not
  connected, and the read results that leave the handshake as it is.
\<close>

fun ends_handshake :: "IncomingMessage \<Rightarrow> bool" where
  "ends_handshake (ControlEnvelope action data) =
     (action = ControlActionReady \<or> action = ControlActionSessionInfo)"
| "ends_handshake (SDKSystemMessage subtype uuid sid data) = (subtype = SystemSubtypeInit)"
| "ends_handshake (ErrorEnvelope message code details) = True"
| "ends_handshake _ = False"

fun quiet :: "nat \<times> ReadResult \<Rightarrow> bool" where
  "quiet (pick, Message msg) = (\<not> ends_handshake msg)"
| "quiet (pick, Malformed e) = True"
| "quiet (pick, ReadFailed e) = False"

text \<open>
  A session whose \<open>Connect\<close> waits for the handshake, no signal seen, with its read loop
  running and not blocked.
\<close>

definition awaiting :: "Session \<Rightarrow> bool" where
  "awaiting s =
     (\<not> connected s \<and> \<not> readyOnce s \<and> \<not> readyCh s \<and> \<not> closeCh s \<and> parked s = None \<and>
      conn (transport s) \<and> \<not> t_closeCh (transport s) \<and> has_OnMessage (t_handlers (transport s)))"


text \<open>
  The messages that \<open>handleMessage\<close> puts on the inbound stream, given the connected
  flag: all but tool calls and, while not connected, the Control signals of readiness.
\<close>

fun surfaced :: "bool \<Rightarrow> IncomingMessage \<Rightarrow> bool" where
  "surfaced con (ToolCallEnvelope callID toolName input) = False"
| "surfaced con (ControlEnvelope action data) =
     (con \<or> \<not> (action = ControlActionReady \<or> action = ControlActionSessionInfo))"
| "surfaced con _ = True"

text \<open>What \<open>Disconnect\<close> changes of a transport: the handle, the status, \<open>closeCh\<close>.\<close>

definition link :: "WebSocketTransport \<Rightarrow> bool \<times> ConnectionStatus \<times> bool" where
  "link t = (conn t, status t, t_closeCh t)"


text \<open>
  A session that is not connected and has seen no handshake signal, open, with a read
  loop that is not blocked and a transport that is not closed.
\<close>

definition before_handshake :: "Session \<Rightarrow> bool" where
  "before_handshake s =
     (\<not> connected s \<and> \<not> readyOnce s \<and> \<not> readyCh s \<and> \<not> closeCh s \<and> parked s = None \<and>
      initErr s = None \<and> \<not> t_closeCh (transport s) \<and> has_OnMessage (t_handlers (transport s)) \<and>
      (\<not> t_readyOnce (transport s) \<or> t_readyCh (transport s)))"

subsection \<open>The inbound pipeline\<close>

text \<open>
  The inbound side of a session with one \<open>Stream\<close> call: the messages still in the
  socket, in the order they will be read (\<open>inbox\<close>), the session, and the \<open>Stream\<close>
  goroutine. The two goroutines run interleaved: \<open>ReadNext\<close> is an iteration of the read
  loop, which takes the next message off the socket when the loop is running and not
  blocked; \<open>StreamNext\<close> is a step of the \<open>Stream\<close> goroutine under a live context, with
  the flag telling whether its consumer is receiving. The numbers are the random choices
  of the \<open>select\<close>s.
\<close>

datatype Tick = ReadNext nat | StreamNext nat nat bool

type_synonym pipe = "IncomingMessage list \<times> Session \<times> StreamTask"

definition session_of :: "pipe \<Rightarrow> Session" where
  "session_of x = fst (snd x)"

definition task_of :: "pipe \<Rightarrow> StreamTask" where
  "task_of x = snd (snd x)"

fun tick :: "Tick \<Rightarrow> pipe \<Rightarrow> pipe" where
  "tick (ReadNext p) (inbox, s, g) =
     (case inbox of
        [] \<Rightarrow> (inbox, s, g)
      | msg # rest \<Rightarrow>
          if t_closeCh (transport s) \<or> \<not> conn (transport s) \<or> parked s \<noteq> None
          then (inbox, s, g)
          else (rest, readLoop_iter p (Message msg) s, g))"
| "tick (StreamNext q q' consumer) (inbox, s, g) =
     (case Stream_iter q q' False consumer (s, g) of (s1, g1) \<Rightarrow> (inbox, s1, g1))"

fun ticks :: "Tick list \<Rightarrow> pipe \<Rightarrow> pipe" where
  "ticks [] x = x"
| "ticks (e # es) x = ticks es (tick e x)"

text \<open>
  The messages on their way to the consumer, in order: the one the goroutine holds, the
  buffer, the one the read loop is blocked with, and those in the socket that
  \<open>handleMessage\<close> will put on the stream.
\<close>

definition pipeline :: "pipe \<Rightarrow> IncomingMessage list" where
  "pipeline x =
     (case held (task_of x) of None \<Rightarrow> [] | Some msg \<Rightarrow> [msg])
     @ msgCh (session_of x)
     @ (case parked (session_of x) of None \<Rightarrow> [] | Some msg \<Rightarrow> [msg])
     @ filter (surfaced (connected (session_of x))) (fst x)"

text \<open>A list up to and with its first Result message (the whole list when it has none).\<close>

definition upto_Result :: "IncomingMessage list \<Rightarrow> IncomingMessage list" where
  "upto_Result xs =
     takeWhile (\<lambda>msg. \<not> is_Result msg) xs @ take 1 (dropWhile (\<lambda>msg. \<not> is_Result msg) xs)"

text \<open>
  An upper bound of the steps that remain: three for a message in the socket, two for
  one in the buffer or with the blocked read loop, one for the message the goroutine holds.
\<close>

definition work :: "pipe \<Rightarrow> nat" where
  "work x =
     3 * length (fst x)
     + 2 * (length (msgCh (session_of x)) + (case parked (session_of x) of None \<Rightarrow> 0 | Some msg \<Rightarrow> 1))
     + (case held (task_of x) of None \<Rightarrow> 0 | Some msg \<Rightarrow> 1)"

text \<open>
  Fairness of a finite schedule: it is a sequence of rounds, each of which lets the read
  loop make an iteration and the goroutine make a step with its consumer receiving, in
  any order and among any other steps.
\<close>

fun is_read :: "Tick \<Rightarrow> bool" where
  "is_read (ReadNext p) = True"
| "is_read _ = False"

fun is_take :: "Tick \<Rightarrow> bool" where
  "is_take (StreamNext q q' consumer) = consumer"
| "is_take _ = False"

definition fair_round :: "Tick list \<Rightarrow> bool" where
  "fair_round r = (list_ex is_read r \<and> list_ex is_take r)"

text \<open>
  An open session with a running read loop, which is blocked only on a buffer that holds
  something, and a \<open>Stream\<close> goroutine that has not returned.
\<close>

definition flowing :: "pipe \<Rightarrow> bool" where
  "flowing x =
     (\<not> out_closed (task_of x) \<and> \<not> closeCh (session_of x) \<and>
      conn (transport (session_of x)) \<and> \<not> t_closeCh (transport (session_of x)) \<and>
      has_OnMessage (t_handlers (transport (session_of x))) \<and>
      (parked (session_of x) = None \<or> msgCh (session_of x) \<noteq> []))"

text \<open>The session after a receive from its non-empty \<open>msgCh\<close> (see \<open>recv_msgCh\<close>).\<close>

definition received :: "Session \<Rightarrow> Session" where
  "received s =
     (case parked s of
        None \<Rightarrow> s\<lparr>msgCh := tl (msgCh s)\<rparr>
      | Some p \<Rightarrow> notify_OnMessage p (s\<lparr>msgCh := tl (msgCh s) @ [p], parked := None\<rparr>))"

text \<open>
  Two ways a schedule \<open>es\<close> can leave the pipeline \<open>x\<close>. Either the goroutine has not
  returned: what it handed over since, \<open>xs\<close>, holds no Result and is the front of what
  was on its way. Or it has returned: it handed over what was on its way up to and with
  the first Result, the session is open and the transport not disconnected, and at some
  point of the schedule the goroutine had returned and the state was Completed.
\<close>

definition Stream_going :: "pipe \<Rightarrow> Tick list \<Rightarrow> bool" where
  "Stream_going x es =
     (flowing (ticks es x) \<and> work (ticks es x) \<le> work x \<and>
      (\<exists>xs. out (task_of (ticks es x)) = out (task_of x) @ xs \<and>
            pipeline x = xs @ pipeline (ticks es x) \<and> \<not> list_ex is_Result xs) \<and>
      link (transport (session_of (ticks es x))) = link (transport (session_of x)) \<and>
      (work (ticks es x) = work x \<longrightarrow> (\<forall>e \<in> set es. tick e x = x)))"

definition Stream_ended :: "pipe \<Rightarrow> Tick list \<Rightarrow> bool" where
  "Stream_ended x es =
     (out_closed (task_of (ticks es x)) \<and>
      out (task_of (ticks es x)) = out (task_of x) @ upto_Result (pipeline x) \<and>
      \<not> closeCh (session_of (ticks es x)) \<and>
      link (transport (session_of (ticks es x))) = link (transport (session_of x)) \<and>
      (\<exists>n \<le> length es. out_closed (task_of (ticks (take n es) x)) \<and>
         state (session_of (ticks (take n es) x)) = SessionStateCompleted))"


section \<open>Properties\<close>

subsection \<open>The transport's queue\<close>

lemma flush_loop_wire:
  "fst (flush_loop q t) =
     t\<lparr>wire := wire t @ map TextMessage (filter (\<lambda>m. marshals m \<and> conn t \<and> net_ok t) q)\<rparr>"
proof (induction q arbitrary: t)
  case Nil
  show ?case by simp
next
  case (Cons m q)
  show ?case
  proof (cases "marshals m \<and> conn t \<and> net_ok t")
    case True
    then have "sendImmediate m t = (t\<lparr>wire := wire t @ [TextMessage m]\<rparr>, None)"
      by (simp add: sendImmediate_def)
    then show ?thesis using True by (simp add: Cons)
  next
    case False
    then have "fst (sendImmediate m t) = t \<and> snd (sendImmediate m t) \<noteq> None"
      by (auto simp: sendImmediate_def)
    then obtain e where "sendImmediate m t = (t, Some e)"
      by (cases "sendImmediate m t") auto
    then show ?thesis using False by (auto simp add: Cons case_prod_beta)
  qed
qed

lemma Send_ws_fold_queue:
  "\<not> conn t \<Longrightarrow>
     foldl (\<lambda>t m. fst (Send_ws m t)) t ms = t\<lparr>msgQueue := msgQueue t @ ms\<rparr>"
  by (induction ms arbitrary: t) (simp_all add: Send_ws_def)

lemma Connect_ws_Dialed_transport:
  "fst (Connect_ws Dialed t) =
     t\<lparr>status := StatusConnected, conn := True, t_readyOnce := True,
       t_readyCh := (t_readyOnce t \<longrightarrow> t_readyCh t), msgQueue := [],
       wire := wire t @ map TextMessage (filter (\<lambda>m. marshals m \<and> net_ok t) (msgQueue t))\<rparr>"
  by (simp add: Connect_ws_def setStatus_def flushQueue_def Let_def case_prod_beta flush_loop_wire)

lemma Connect_ws_Dialed_result: "snd (snd (Connect_ws Dialed t)) = None"
  by (simp add: Connect_ws_def Let_def case_prod_beta)

subsection \<open>The session identity changes only in the handshake signals\<close>

lemma sessionID_handleError [simp]: "sessionID (handleError e s) = sessionID s"
  by (simp add: handleError_def Let_def)

lemma sessionID_run_calls [simp]: "sessionID (run_calls cs s) = sessionID s"
  by (induction cs s rule: run_calls.induct) (simp_all add: handleStatusChange_def)

lemma sessionID_transport_Send [simp]: "sessionID (fst (transport_Send m s)) = sessionID s"
  by (simp add: transport_Send_def case_prod_beta)

lemma sessionID_setState [simp]: "sessionID (setState st s) = sessionID s"
  by (simp add: setState_def)

lemma sessionID_notify_OnMessage [simp]: "sessionID (notify_OnMessage m s) = sessionID s"
  by (simp add: notify_OnMessage_def)

lemma sessionID_handleToolCall [simp]: "sessionID (handleToolCall c n i s) = sessionID s"
  by (simp add: handleToolCall_def Let_def case_prod_beta split: option.splits)

lemma sessionID_forwarded [simp]: "sessionID (forwarded r m s) = sessionID s"
  by (cases "(r, m, s)" rule: forwarded.cases) simp_all

lemma sessionID_forward [simp]: "sessionID (forward p m s) = sessionID s"
  by (simp add: forward_def)

lemma sessionID_signal_ready [simp]: "sessionID (signal_ready s) = sessionID s"
  by (simp add: signal_ready_def)

lemma sessionID_ready_signals:
  "sessionID (fst (ready_signals m s)) = sessionID s \<or>
   (assigns_identity m \<and> sessionID (fst (ready_signals m s)) \<noteq> [])"
  by (cases m) simp_all

lemma sessionID_handleMessage:
  "sessionID (handleMessage p m s) = sessionID s \<or>
   (assigns_identity m \<and> sessionID (handleMessage p m s) \<noteq> [])"
  using sessionID_ready_signals[of m s]
  by (cases "ready_signals m s")
     (auto simp: handleMessage_def split: IncomingMessage.splits bool.splits)

lemma sessionID_Close [simp]: "sessionID (Close s) = sessionID s"
  by (simp add: Close_def Let_def case_prod_beta removeSession_def split: option.splits)

lemma sessionID_readLoop_iter:
  "sessionID (readLoop_iter p rr s) = sessionID s \<or>
   (list_ex assigns_identity (read_message (p, rr)) \<and> sessionID (readLoop_iter p rr s) \<noteq> [])"
  using sessionID_handleMessage[of p _ s]
  by (cases rr) (auto simp: readLoop_iter_def Let_def handleClose_def)

lemma sessionID_readLoop_run:
  "sessionID (readLoop_run arrivals s) = sessionID s \<or>
   (list_ex assigns_identity (concat (map read_message arrivals)) \<and>
    sessionID (readLoop_run arrivals s) \<noteq> [])"
proof (induction arrivals arbitrary: s)
  case Nil
  show ?case by simp
next
  case (Cons a arrivals)
  obtain p rr where a: "a = (p, rr)" by (cases a)
  show ?case
    using Cons[of "readLoop_iter p rr s"] sessionID_readLoop_iter[of p rr s]
    by (auto simp: a)
qed

lemma sessionID_keepAlive_tick [simp]: "sessionID (keepAlive_tick ts s) = sessionID s"
  by (simp add: keepAlive_tick_def case_prod_beta split: option.splits)

lemma sessionID_sendInit [simp]: "sessionID (fst (sendInit s)) = sessionID s"
  by (simp add: sendInit_def Let_def)

lemma sessionID_Connect_selected [simp]:
  "sessionID (fst (Connect_selected ctx r s)) = sessionID s"
  by (cases "(ctx, r, s)" rule: Connect_selected.cases) (simp_all add: Let_def split: option.splits)

lemma sessionID_Connect_wait [simp]: "sessionID (fst (Connect_wait ctx p s)) = sessionID s"
  by (simp add: Connect_wait_def)

subsection \<open>Connect and Send, unfolded\<close>

lemma Connect_unfold:
  assumes "\<not> connected s"
    and "s1 = setState SessionStateInitializing s"
    and "cw = Connect_ws dial (transport s1)"
    and "s2 = run_calls (fst (snd cw)) (s1\<lparr>transport := fst cw\<rparr>)"
    and "si = sendInit s2"
  shows "Connect dial arrivals ctx p s =
     (case snd (snd cw) of
        Some err \<Rightarrow> (setState SessionStateError s2, Returned (Some err))
      | None \<Rightarrow>
          (case WaitForReady (transport s2) of
             Some err \<Rightarrow> (setState SessionStateError s2, Returned (Some err))
           | None \<Rightarrow>
               (case snd si of
                  Some err \<Rightarrow> (setState SessionStateError (fst si), Returned (Some err))
                | None \<Rightarrow> Connect_wait ctx p (readLoop_run arrivals (fst si)))))"
  using assms by (simp add: Connect_def Let_def case_prod_beta cong: option.case_cong)

lemma sessionID_Connect:
  "sessionID (fst (Connect dial arrivals ctx p s)) = sessionID s \<or>
   (list_ex assigns_identity (concat (map read_message arrivals)) \<and>
    sessionID (fst (Connect dial arrivals ctx p s)) \<noteq> [])"
proof (cases "connected s")
  case True
  then show ?thesis by (simp add: Connect_def)
next
  case False
  define s1 where "s1 = setState SessionStateInitializing s"
  define cw where "cw = Connect_ws dial (transport s1)"
  define s2 where "s2 = run_calls (fst (snd cw)) (s1\<lparr>transport := fst cw\<rparr>)"
  define si where "si = sendInit s2"
  have s2: "sessionID s2 = sessionID s" by (simp add: s2_def s1_def)
  have s3: "sessionID (fst si) = sessionID s" by (simp add: si_def s2)
  note eq = Connect_unfold[OF False s1_def cw_def s2_def si_def, of arrivals ctx p]
  have "sessionID (fst (Connect dial arrivals ctx p s)) = sessionID s \<or>
        sessionID (fst (Connect dial arrivals ctx p s)) = sessionID (readLoop_run arrivals (fst si))"
    by (simp add: eq s2 s3 split: option.splits)
  then show ?thesis
    using sessionID_readLoop_run[of arrivals "fst si"] s3 by auto
qed

lemma Send_unfold:
  assumes "c = (if \<not> connected s then Connect dial arrivals ctx p s else (s, Returned None))"
  shows "Send dial arrivals ctx p uuid message s =
     (case snd c of
        Blocked \<Rightarrow> (fst c, Blocked)
      | Returned (Some err) \<Rightarrow> (fst c, Returned (Some err))
      | Returned None \<Rightarrow>
          (let s2 = setState SessionStateProcessing (fst c);
               tr = transport_Send
                      (SDKUserMessage uuid (if sessionID s2 = [] then ''unknown'' else sessionID s2)
                         RoleUser message) s2
           in (fst tr, Returned (snd tr))))"
  unfolding Send_def assms[symmetric]
  by (cases c) (simp add: Let_def case_prod_beta split: outcome.splits option.splits)

lemma sessionID_Send:
  "sessionID (fst (Send dial arrivals ctx p uuid message s)) = sessionID s \<or>
   (list_ex assigns_identity (concat (map read_message arrivals)) \<and>
    sessionID (fst (Send dial arrivals ctx p uuid message s)) \<noteq> [])"
proof -
  define c where "c = (if \<not> connected s then Connect dial arrivals ctx p s else (s, Returned None))"
  have "sessionID (fst (Send dial arrivals ctx p uuid message s)) = sessionID (fst c)"
    by (simp add: Send_unfold[OF c_def] Let_def split: outcome.splits option.splits)
  moreover have "sessionID (fst c) = sessionID s \<or>
     (list_ex assigns_identity (concat (map read_message arrivals)) \<and> sessionID (fst c) \<noteq> [])"
    using sessionID_Connect[of dial arrivals ctx p s] by (simp add: c_def)
  ultimately show ?thesis by simp
qed

lemma sessionID_Stream_handed [simp]:
  "sessionID (fst (Stream_handed r m (s, g))) = sessionID s"
  by (cases "(r, m, (s, g))" rule: Stream_handed.cases) simp_all

lemma sessionID_Stream_hand [simp]:
  "sessionID (fst (Stream_hand p c k m (s, g))) = sessionID s"
  by (simp add: Stream_hand_def)

lemma sessionID_recv_msgCh: "recv_msgCh s = Some (m, s1) \<Longrightarrow> sessionID s1 = sessionID s"
  by (auto simp: recv_msgCh_def split: list.splits option.splits)

lemma sessionID_Stream_selected [simp]:
  "sessionID (fst (Stream_selected r p' c k (s, g))) = sessionID s"
  by (cases "(r, p', c, k, (s, g))" rule: Stream_selected.cases)
     (auto simp: sessionID_recv_msgCh split: option.splits)

lemma sessionID_Stream_iter [simp]:
  "sessionID (fst (Stream_iter p p' c k (s, g))) = sessionID s"
  by (simp add: Stream_iter_def split: option.splits)

lemma sessionID_step:
  "sessionID (fst (step e sg)) = sessionID (fst sg) \<or>
   (list_ex assigns_identity (inbound e) \<and> sessionID (fst (step e sg)) \<noteq> [])"
proof (cases sg)
  case (Pair s gs)
  show ?thesis
  proof (cases e)
    case (Read p rr)
    then show ?thesis using sessionID_readLoop_iter[of p rr s] by (simp add: Pair)
  next
    case (CallConnect dial arrivals ctx p)
    then show ?thesis using sessionID_Connect[of dial arrivals ctx p s] by (simp add: Pair)
  next
    case (CallSend dial arrivals ctx p uuid message)
    then show ?thesis
      using sessionID_Send[of dial arrivals ctx p uuid message s] by (simp add: Pair)
  next
    case (StreamStep i p p' c k)
    then show ?thesis
      using sessionID_Stream_iter[of p p' c k s "gs ! i"]
      by (simp add: Pair case_prod_beta del: sessionID_Stream_iter)
  qed (simp_all add: Pair On_def)
qed

lemma sessionID_run:
  "sessionID (fst (run es sg)) = sessionID (fst sg) \<or>
   (list_ex assigns_identity (concat (map inbound es)) \<and> sessionID (fst (run es sg)) \<noteq> [])"
proof (induction es arbitrary: sg)
  case Nil
  show ?case by simp
next
  case (Cons e es)
  show ?case
    using Cons[of "step e sg"] sessionID_step[of e sg] by auto
qed

subsection \<open>The session identity\<close>

text \<open>
  C3. A session is created with the empty identity. In every run of a session, whatever
  the events: while the identity is empty and the events bring no System message of
  subtype init with a non-empty session identity, the identity stays empty; and an
  identity that is not empty never becomes empty again.
\<close>

theorem session_identity_empty_until_init:
  "sessionID (newSession c t opts a) = [] \<and>
   sessionID (CreateSession opts' a net c) = [] \<and>
   (sessionID (fst sg) = [] \<and> \<not> list_ex assigns_identity (concat (map inbound es))
      \<longrightarrow> sessionID (fst (run es sg)) = []) \<and>
   (sessionID (fst sg) \<noteq> [] \<longrightarrow> sessionID (fst (run es sg)) \<noteq> [])"
  using sessionID_run[of es sg]
  by (auto simp: newSession_def CreateSession_def Let_def extractToolHandlers_def)

theorem session_identity_empty_until_init_witness:
  "sessionID (fst (run [CallConnect Dialed [(0, Message (ControlEnvelope ''ready'' JNull))] None 0,
                        CallSend Dialed [] None 0 ''u1'' ''hello'',
                        Read 0 (Message (SDKAssistantMessage JNull))]
                   (CreateSession None 0 True NewClient, []))) = [] \<and>
   sessionID (fst (run [CallConnect Dialed
                          [(0, Message (SDKSystemMessage ''init'' ''u0'' ''abc'' JNull))] None 0]
                   (CreateSession None 0 True NewClient, []))) = ''abc'' \<and>
   sessionID (fst (run [Read 0 (Message (SDKSystemMessage ''init'' ''u2'' [] JNull)), CallClose]
                   (run [CallConnect Dialed
                          [(0, Message (SDKSystemMessage ''init'' ''u0'' ''abc'' JNull))] None 0]
                      (CreateSession None 0 True NewClient, [])))) \<noteq> []"
proof -
  let ?sg0 = "(CreateSession None 0 True NewClient, [])"
  let ?es1 = "[CallConnect Dialed [(0, Message (ControlEnvelope ''ready'' JNull))] None 0,
               CallSend Dialed [] None 0 ''u1'' ''hello'',
               Read 0 (Message (SDKAssistantMessage JNull))]"
  let ?es2 = "[CallConnect Dialed
                 [(0, Message (SDKSystemMessage ''init'' ''u0'' ''abc'' JNull))] None 0]"
  let ?es3 = "[Read 0 (Message (SDKSystemMessage ''init'' ''u2'' [] JNull)), CallClose]"
  have a: "sessionID (fst ?sg0) = [] \<and> \<not> list_ex assigns_identity (concat (map inbound ?es1))"
    by code_simp
  have b: "sessionID (fst (run ?es2 ?sg0)) = ''abc''"
    by code_simp
  show ?thesis
    using a b session_identity_empty_until_init[of NewClient "NewWebSocketTransport True" empty_SessionOptions 0 None True ?sg0 ?es1]
      session_identity_empty_until_init[of NewClient "NewWebSocketTransport True" empty_SessionOptions 0 None True "run ?es2 ?sg0" ?es3]
    by simp
qed

subsection \<open>Queueing in the transport\<close>

text \<open>
  C6. A message passed to the transport's \<open>Send\<close> while the status is Connecting or
  there is no handle is appended to the queue, and \<open>Send\<close> returns no error. When
  messages \<open>ms\<close> are passed one after the other to a transport without a handle and
  \<open>Connect\<close> then dials with success, \<open>Connect\<close> returns no error, leaves the queue
  empty, and has written the queued messages to the socket in the order they were
  queued: all of them when the socket accepts writes and every message encodes, and in
  any case those that \<open>sendImmediate\<close> could write, in their order. The last two parts say the same of
  the queue of any transport on which \<open>Connect\<close> dials with success.
\<close>

theorem Send_queues_Connect_flushes_in_order:
  "(status t = StatusConnecting \<or> \<not> conn t \<longrightarrow>
      Send_ws msg t = (t\<lparr>msgQueue := msgQueue t @ [msg]\<rparr>, None)) \<and>
   (\<not> conn t \<longrightarrow>
      (let t1 = foldl (\<lambda>t m. fst (Send_ws m t)) t ms;
           t2 = fst (Connect_ws Dialed t1)
       in msgQueue t1 = msgQueue t @ ms \<and>
          snd (snd (Connect_ws Dialed t1)) = None \<and>
          msgQueue t2 = [] \<and>
          wire t2 = wire t @ map TextMessage
                      (filter (\<lambda>m. marshals m \<and> net_ok t) (msgQueue t @ ms)) \<and>
          (net_ok t \<and> list_all marshals (msgQueue t @ ms) \<longrightarrow>
             wire t2 = wire t @ map TextMessage (msgQueue t @ ms)))) \<and>
   msgQueue (fst (Connect_ws Dialed t)) = [] \<and>
   wire (fst (Connect_ws Dialed t)) =
     wire t @ map TextMessage (filter (\<lambda>m. marshals m \<and> net_ok t) (msgQueue t))"
proof -
  have a: "status t = StatusConnecting \<or> \<not> conn t \<Longrightarrow>
      Send_ws msg t = (t\<lparr>msgQueue := msgQueue t @ [msg]\<rparr>, None)"
    by (auto simp: Send_ws_def)
  have f: "net_ok t \<and> list_all marshals (msgQueue t @ ms) \<Longrightarrow>
      filter (\<lambda>m. marshals m \<and> net_ok t) (msgQueue t @ ms) = msgQueue t @ ms"
    by (simp add: list_all_iff)
  have b: "\<not> conn t \<Longrightarrow> ?thesis"
    using a f
    by (simp add: Let_def Send_ws_fold_queue Connect_ws_Dialed_transport Connect_ws_Dialed_result
        del: filter_append)
  have c: "msgQueue (fst (Connect_ws Dialed t)) = [] \<and>
     wire (fst (Connect_ws Dialed t)) =
       wire t @ map TextMessage (filter (\<lambda>m. marshals m \<and> net_ok t) (msgQueue t))"
    by (simp add: Connect_ws_Dialed_transport)
  show ?thesis
    using a b c by blast
qed

theorem Send_queues_Connect_flushes_in_order_witness:
  "Send_ws (PingEnvelope 7) (NewWebSocketTransport True) =
     ((NewWebSocketTransport True)\<lparr>msgQueue := [PingEnvelope 7]\<rparr>, None) \<and>
   wire (fst (Connect_ws Dialed
     (foldl (\<lambda>t m. fst (Send_ws m t)) (NewWebSocketTransport True)
        [PingEnvelope 1, ControlEnvelopeOut ''end_input'', PingEnvelope 2]))) =
     [TextMessage (PingEnvelope 1), TextMessage (ControlEnvelopeOut ''end_input''),
      TextMessage (PingEnvelope 2)]"
proof -
  let ?t = "NewWebSocketTransport True"
  let ?ms = "[PingEnvelope 1, ControlEnvelopeOut ''end_input'', PingEnvelope 2]"
  have h: "(status ?t = StatusConnecting \<or> \<not> conn ?t) \<and> \<not> conn ?t \<and> net_ok ?t \<and>
           list_all marshals (msgQueue ?t @ ?ms) \<and> msgQueue ?t = [] \<and> wire ?t = []"
    by (simp add: NewWebSocketTransport_def)
  show ?thesis
    using h Send_queues_Connect_flushes_in_order[of ?t "PingEnvelope 7" ?ms]
    by (simp add: Let_def)
qed

subsection \<open>Tool calls for unknown tools\<close>

lemma transport_handleError [simp]: "transport (handleError e s) = transport s"
  by (simp add: handleError_def Let_def)

lemma state_handleError [simp]: "state (handleError e s) = state s"
  by (simp add: handleError_def Let_def)

lemma msgCh_handleError [simp]: "msgCh (handleError e s) = msgCh s"
  by (simp add: handleError_def Let_def)

text \<open>
  C4. When a ToolCall envelope names a tool that is not in the registry, \<open>handleMessage\<close>
  passes to the transport's \<open>Send\<close> a ToolResult envelope with the call identifier of
  the request, \<open>isError\<close> set, and the one text content \<open>Tool not found: \<close> followed by
  the tool name; the session state is then Processing, and nothing is put on the inbound
  stream. The transport writes the envelope to the socket at once when it is connected
  and the socket accepts the write, and queues it while it is connecting or has no handle.
\<close>

theorem unregistered_tool_call_yields_error_result:
  "toolHandlers s toolName = None \<longrightarrow>
     (let result = \<lparr> Content = [TextToolContent ''text'' (''Tool not found: '' @ toolName)],
                     IsError = True \<rparr>;
          reply = ToolResultEnvelope callID (Some result);
          s' = handleMessage pick (ToolCallEnvelope callID toolName input) s
      in transport s' = fst (Send_ws reply (transport s)) \<and>
         state s' = SessionStateProcessing \<and>
         msgCh s' = msgCh s \<and>
         (conn (transport s) \<and> status (transport s) \<noteq> StatusConnecting \<and> net_ok (transport s)
            \<longrightarrow> wire (transport s') = wire (transport s) @ [TextMessage reply] \<and>
                msgQueue (transport s') = msgQueue (transport s)) \<and>
         (\<not> conn (transport s) \<or> status (transport s) = StatusConnecting
            \<longrightarrow> msgQueue (transport s') = msgQueue (transport s) @ [reply] \<and>
                wire (transport s') = wire (transport s)))"
proof (intro impI)
  assume none: "toolHandlers s toolName = None"
  define reply where
    "reply = ToolResultEnvelope callID
       (Some \<lparr> Content = [TextToolContent ''text'' (''Tool not found: '' @ toolName)],
               IsError = True \<rparr>)"
  define s' where "s' = handleMessage pick (ToolCallEnvelope callID toolName input) s"
  have hm: "s' = handleToolCall callID toolName input s"
    by (simp add: s'_def handleMessage_def)
  have tr: "transport s' = fst (Send_ws reply (transport s))"
    using none
    by (simp add: hm handleToolCall_def Let_def transport_Send_def setState_def reply_def
        case_prod_beta split: option.splits)
  have st: "state s' = SessionStateProcessing"
    by (simp add: hm handleToolCall_def Let_def setState_def case_prod_beta split: option.splits)
  have mc: "msgCh s' = msgCh s"
    by (simp add: hm handleToolCall_def Let_def setState_def transport_Send_def case_prod_beta
        split: option.splits)
  have m: "marshals reply" by (simp add: reply_def)
  have w: "conn (transport s) \<and> status (transport s) \<noteq> StatusConnecting \<and> net_ok (transport s)
      \<Longrightarrow> wire (transport s') = wire (transport s) @ [TextMessage reply] \<and>
          msgQueue (transport s') = msgQueue (transport s)"
    using m by (simp add: tr Send_ws_def sendImmediate_def)
  have q: "\<not> conn (transport s) \<or> status (transport s) = StatusConnecting
      \<Longrightarrow> msgQueue (transport s') = msgQueue (transport s) @ [reply] \<and>
          wire (transport s') = wire (transport s)"
    by (auto simp: tr Send_ws_def)
  show "let result = \<lparr> Content = [TextToolContent ''text'' (''Tool not found: '' @ toolName)],
                     IsError = True \<rparr>;
          reply = ToolResultEnvelope callID (Some result);
          s' = handleMessage pick (ToolCallEnvelope callID toolName input) s
      in transport s' = fst (Send_ws reply (transport s)) \<and>
         state s' = SessionStateProcessing \<and>
         msgCh s' = msgCh s \<and>
         (conn (transport s) \<and> status (transport s) \<noteq> StatusConnecting \<and> net_ok (transport s)
            \<longrightarrow> wire (transport s') = wire (transport s) @ [TextMessage reply] \<and>
                msgQueue (transport s') = msgQueue (transport s)) \<and>
         (\<not> conn (transport s) \<or> status (transport s) = StatusConnecting
            \<longrightarrow> msgQueue (transport s') = msgQueue (transport s) @ [reply] \<and>
                wire (transport s') = wire (transport s))"
    unfolding Let_def reply_def[symmetric] s'_def[symmetric]
    using tr st mc w q by blast
qed

theorem unregistered_tool_call_yields_error_result_witness:
  "toolHandlers (fst (Connect Dialed [(0, Message (ControlEnvelope ''ready'' JNull))] None 0
                   (CreateSession None 0 True NewClient))) ''nope'' = None \<and>
   state (handleMessage 0 (ToolCallEnvelope ''c1'' ''nope'' JNull)
            (fst (Connect Dialed [(0, Message (ControlEnvelope ''ready'' JNull))] None 0
                   (CreateSession None 0 True NewClient)))) = SessionStateProcessing \<and>
   wire (transport (handleMessage 0 (ToolCallEnvelope ''c1'' ''nope'' JNull)
            (fst (Connect Dialed [(0, Message (ControlEnvelope ''ready'' JNull))] None 0
                   (CreateSession None 0 True NewClient))))) =
     wire (transport (fst (Connect Dialed [(0, Message (ControlEnvelope ''ready'' JNull))] None 0
                   (CreateSession None 0 True NewClient))))
     @ [TextMessage (ToolResultEnvelope ''c1''
          (Some \<lparr> Content = [TextToolContent ''text'' (''Tool not found: '' @ ''nope'')],
                  IsError = True \<rparr>))]"
proof -
  let ?s = "fst (Connect Dialed [(0, Message (ControlEnvelope ''ready'' JNull))] None 0
                   (CreateSession None 0 True NewClient))"
  have h: "toolHandlers ?s ''nope'' = None \<and> conn (transport ?s) \<and>
           status (transport ?s) \<noteq> StatusConnecting \<and> net_ok (transport ?s)"
    by code_simp
  show ?thesis
    using h unregistered_tool_call_yields_error_result[of ?s "''nope''" "''c1''" 0 JNull]
    unfolding Let_def by blast
qed

subsection \<open>Close runs once\<close>

lemma run_calls_Disconnect_ws [simp]: "run_calls (fst (snd (Disconnect_ws t))) s = s"
  by (simp add: Disconnect_ws_def Let_def setStatus_def case_prod_beta handleStatusChange_def)

lemma Close_open:
  assumes "\<not> closeOnce s"
  shows "closeOnce (Close s)"
    and "closeCh (Close s)"
    and "transport (Close s) =
           fst (Disconnect_ws (fst (Send_ws (ControlEnvelopeOut ControlActionClose) (transport s))))"
    and "calls (Close s) =
           calls s
           @ (case parked s of None \<Rightarrow> []
              | Some m \<Rightarrow> if has_s_OnMessage (handlers s) then [SessionOnMessage m] else [])
           @ (if has_OnSessionEnd (c_handlers (client s)) then [ClientOnSessionEnd (sessionID s)]
              else [])
           @ (if has_s_OnClose (handlers s) then [SessionOnClose] else [])"
    and "sessions (client (Close s)) = (sessions (client s))(sessionID s := None)"
  using assms
  by (simp_all add: Close_def Let_def case_prod_beta transport_Send_def removeSession_def
      notify_OnMessage_def split: option.splits)

lemma Close_closed: "closeOnce s \<Longrightarrow> Close s = s"
  by (simp add: Close_def)

lemma closeOnce_Close [simp]: "closeOnce (Close s)"
  using Close_open(1)[of s] Close_closed[of s] by (cases "closeOnce s") auto

lemma Close_idem: "Close (Close s) = Close s"
  by (simp add: Close_closed)

lemma Close_funpow: "0 < n \<Longrightarrow> (Close ^^ n) s = Close s"
proof (induction n)
  case 0
  then show ?case by simp
next
  case (Suc n)
  show ?case
  proof (cases n)
    case 0
    then show ?thesis by simp
  next
    case (Suc k)
    then have "(Close ^^ n) s = Close s" using Suc.IH by simp
    then show ?thesis by (simp add: Close_idem)
  qed
qed

lemma close_envelopes_Disconnect_ws [simp]:
  "close_envelopes (fst (Disconnect_ws t)) = close_envelopes t"
  by (simp add: Disconnect_ws_def Let_def setStatus_def case_prod_beta close_envelopes_def)

lemma close_envelopes_Send_ws:
  "close_envelopes (fst (Send_ws (ControlEnvelopeOut ControlActionClose) t)) =
     close_envelopes t
     + (if conn t \<and> status t \<noteq> StatusConnecting \<and> \<not> net_ok t then 0 else 1)"
  by (simp add: Send_ws_def sendImmediate_def close_envelopes_def)

text \<open>
  C7. Calling \<open>Close\<close> \<open>n\<close> times, for any \<open>n\<close> of at least one, leaves the session as
  one call does. On a session that was not closed before, these calls pass the Control
  envelope with action close to the transport's \<open>Send\<close> once, followed by one
  \<open>Disconnect\<close>: the number of such envelopes that the transport has written or queued
  grows by exactly one (by none only when the connected socket refuses the write, the
  send being best effort), and the number of invocations of the close callback grows by
  exactly one when that callback is registered (and by none when there is no callback
  to invoke).
\<close>

theorem Close_many_times_closes_once:
  "0 < n \<longrightarrow>
     (Close ^^ n) s = Close s \<and>
     (\<not> closeOnce s \<longrightarrow>
        transport ((Close ^^ n) s) =
          fst (Disconnect_ws (fst (Send_ws (ControlEnvelopeOut ControlActionClose) (transport s)))) \<and>
        close_envelopes (transport ((Close ^^ n) s)) =
          close_envelopes (transport s)
          + (if conn (transport s) \<and> status (transport s) \<noteq> StatusConnecting
                \<and> \<not> net_ok (transport s) then 0 else 1) \<and>
        count_list (calls ((Close ^^ n) s)) SessionOnClose =
          count_list (calls s) SessionOnClose + (if has_s_OnClose (handlers s) then 1 else 0))"
proof (intro impI conjI)
  assume n: "0 < n"
  show "(Close ^^ n) s = Close s" using n by (rule Close_funpow)
  assume o: "\<not> closeOnce s"
  show "transport ((Close ^^ n) s) =
          fst (Disconnect_ws (fst (Send_ws (ControlEnvelopeOut ControlActionClose) (transport s))))"
    by (simp add: Close_funpow[OF n] Close_open(3)[OF o])
  show "close_envelopes (transport ((Close ^^ n) s)) =
          close_envelopes (transport s)
          + (if conn (transport s) \<and> status (transport s) \<noteq> StatusConnecting
                \<and> \<not> net_ok (transport s) then 0 else 1)"
    by (simp only: Close_funpow[OF n] Close_open(3)[OF o] close_envelopes_Disconnect_ws
        close_envelopes_Send_ws)
  show "count_list (calls ((Close ^^ n) s)) SessionOnClose =
          count_list (calls s) SessionOnClose + (if has_s_OnClose (handlers s) then 1 else 0)"
    by (simp add: Close_funpow[OF n] Close_open(4)[OF o] split: option.splits)
qed

theorem Close_many_times_closes_once_witness:
  "count_list (calls ((Close ^^ 3)
      (fst (Connect Dialed [(0, Message (ControlEnvelope ''ready'' JNull))] None 0
         (On \<lparr> has_s_OnMessage = True, has_s_OnError = True, has_s_OnClose = True \<rparr>
            (CreateSession None 0 True NewClient)))))) SessionOnClose = 1 \<and>
   close_envelopes (transport ((Close ^^ 3)
      (fst (Connect Dialed [(0, Message (ControlEnvelope ''ready'' JNull))] None 0
         (On \<lparr> has_s_OnMessage = True, has_s_OnError = True, has_s_OnClose = True \<rparr>
            (CreateSession None 0 True NewClient)))))) = 1"
proof -
  let ?s = "fst (Connect Dialed [(0, Message (ControlEnvelope ''ready'' JNull))] None 0
         (On \<lparr> has_s_OnMessage = True, has_s_OnError = True, has_s_OnClose = True \<rparr>
            (CreateSession None 0 True NewClient)))"
  have h1: "\<not> closeOnce ?s" and h2: "has_s_OnClose (handlers ?s)"
    and h3: "net_ok (transport ?s)"
    and h4: "count_list (calls ?s) SessionOnClose = 0"
    and h5: "close_envelopes (transport ?s) = 0"
    by code_simp+
  have n: "(0::nat) < 3" by simp
  note t = Close_many_times_closes_once[of 3 ?s, rule_format, OF n]
  note u = t[THEN conjunct2, rule_format, OF h1]
  have a: "close_envelopes (transport ((Close ^^ 3) ?s)) = 0 + 1"
    using u[THEN conjunct2, THEN conjunct1] by (simp only: h3 h5 simp_thms if_False)
  have b: "count_list (calls ((Close ^^ 3) ?s)) SessionOnClose = 0 + 1"
    using u[THEN conjunct2, THEN conjunct2] by (simp only: h2 h4 if_True)
  show ?thesis
    using a b by (simp only: add_0 simp_thms)
qed

subsection \<open>What the transport's Send and the inbound handlers leave alone\<close>

lemma Send_ws_keeps [simp]:
  "conn (fst (Send_ws m t)) = conn t"
  "status (fst (Send_ws m t)) = status t"
  "t_closeCh (fst (Send_ws m t)) = t_closeCh t"
  "t_closeOnce (fst (Send_ws m t)) = t_closeOnce t"
  "t_readyCh (fst (Send_ws m t)) = t_readyCh t"
  "t_handlers (fst (Send_ws m t)) = t_handlers t"
  "net_ok (fst (Send_ws m t)) = net_ok t"
  by (simp_all add: Send_ws_def sendImmediate_def)

lemma handleError_keeps [simp]:
  "connected (handleError e s) = connected s"
  "readyOnce (handleError e s) = readyOnce s"
  "readyCh (handleError e s) = readyCh s"
  "closeCh (handleError e s) = closeCh s"
  "closeOnce (handleError e s) = closeOnce s"
  "initErr (handleError e s) = initErr s"
  "parked (handleError e s) = parked s"
  "handlers (handleError e s) = handlers s"
  "client (handleError e s) = client s"
  "toolHandlers (handleError e s) = toolHandlers s"
  by (simp_all add: handleError_def Let_def)

lemma run_calls_keeps [simp]:
  "connected (run_calls cs s) = connected s"
  "readyOnce (run_calls cs s) = readyOnce s"
  "readyCh (run_calls cs s) = readyCh s"
  "closeCh (run_calls cs s) = closeCh s"
  "closeOnce (run_calls cs s) = closeOnce s"
  "initErr (run_calls cs s) = initErr s"
  "parked (run_calls cs s) = parked s"
  "msgCh (run_calls cs s) = msgCh s"
  "transport (run_calls cs s) = transport s"
  "state (run_calls cs s) = state s"
  "handlers (run_calls cs s) = handlers s"
  "client (run_calls cs s) = client s"
  "toolHandlers (run_calls cs s) = toolHandlers s"
  by (induction cs s rule: run_calls.induct; simp add: handleStatusChange_def)+

lemma transport_Send_keeps [simp]:
  "connected (fst (transport_Send m s)) = connected s"
  "readyOnce (fst (transport_Send m s)) = readyOnce s"
  "readyCh (fst (transport_Send m s)) = readyCh s"
  "closeCh (fst (transport_Send m s)) = closeCh s"
  "closeOnce (fst (transport_Send m s)) = closeOnce s"
  "initErr (fst (transport_Send m s)) = initErr s"
  "parked (fst (transport_Send m s)) = parked s"
  "msgCh (fst (transport_Send m s)) = msgCh s"
  "state (fst (transport_Send m s)) = state s"
  "handlers (fst (transport_Send m s)) = handlers s"
  "client (fst (transport_Send m s)) = client s"
  "calls (fst (transport_Send m s)) = calls s"
  "toolHandlers (fst (transport_Send m s)) = toolHandlers s"
  "transport (fst (transport_Send m s)) = fst (Send_ws m (transport s))"
  "snd (transport_Send m s) = snd (Send_ws m (transport s))"
  by (simp_all add: transport_Send_def case_prod_beta)

lemma handleToolCall_keeps [simp]:
  "connected (handleToolCall c n i s) = connected s"
  "readyOnce (handleToolCall c n i s) = readyOnce s"
  "readyCh (handleToolCall c n i s) = readyCh s"
  "closeCh (handleToolCall c n i s) = closeCh s"
  "closeOnce (handleToolCall c n i s) = closeOnce s"
  "initErr (handleToolCall c n i s) = initErr s"
  "parked (handleToolCall c n i s) = parked s"
  "msgCh (handleToolCall c n i s) = msgCh s"
  "handlers (handleToolCall c n i s) = handlers s"
  "client (handleToolCall c n i s) = client s"
  "toolHandlers (handleToolCall c n i s) = toolHandlers s"
  "conn (transport (handleToolCall c n i s)) = conn (transport s)"
  "status (transport (handleToolCall c n i s)) = status (transport s)"
  "t_closeCh (transport (handleToolCall c n i s)) = t_closeCh (transport s)"
  "t_handlers (transport (handleToolCall c n i s)) = t_handlers (transport s)"
  "net_ok (transport (handleToolCall c n i s)) = net_ok (transport s)"
  by (simp_all add: handleToolCall_def Let_def setState_def case_prod_beta split: option.splits)

lemma select_single [simp]: "select p [x] = Some x"
  by (simp add: select_def)

lemma select_empty [simp]: "select p [] = None"
  by (simp add: select_def)

lemma notify_OnMessage_keeps [simp]:
  "connected (notify_OnMessage m s) = connected s"
  "readyOnce (notify_OnMessage m s) = readyOnce s"
  "readyCh (notify_OnMessage m s) = readyCh s"
  "closeCh (notify_OnMessage m s) = closeCh s"
  "closeOnce (notify_OnMessage m s) = closeOnce s"
  "initErr (notify_OnMessage m s) = initErr s"
  "parked (notify_OnMessage m s) = parked s"
  "msgCh (notify_OnMessage m s) = msgCh s"
  "state (notify_OnMessage m s) = state s"
  "transport (notify_OnMessage m s) = transport s"
  "handlers (notify_OnMessage m s) = handlers s"
  "client (notify_OnMessage m s) = client s"
  "toolHandlers (notify_OnMessage m s) = toolHandlers s"
  by (simp_all add: notify_OnMessage_def)

lemma forward_open:
  assumes "\<not> closeCh s"
  shows "forward p m s =
     (if length (msgCh s) < msgCh_cap then notify_OnMessage m (s\<lparr>msgCh := msgCh s @ [m]\<rparr>)
      else s\<lparr>parked := Some m\<rparr>)"
  using assms by (simp add: forward_def)

lemma forward_keeps [simp]:
  "connected (forward p m s) = connected s"
  "readyOnce (forward p m s) = readyOnce s"
  "readyCh (forward p m s) = readyCh s"
  "closeCh (forward p m s) = closeCh s"
  "closeOnce (forward p m s) = closeOnce s"
  "initErr (forward p m s) = initErr s"
  "state (forward p m s) = state s"
  "transport (forward p m s) = transport s"
  "handlers (forward p m s) = handlers s"
  "client (forward p m s) = client s"
  "toolHandlers (forward p m s) = toolHandlers s"
proof -
  have *: "\<And>r. connected (forwarded r m s) = connected s \<and>
    readyOnce (forwarded r m s) = readyOnce s \<and> readyCh (forwarded r m s) = readyCh s \<and>
    closeCh (forwarded r m s) = closeCh s \<and> closeOnce (forwarded r m s) = closeOnce s \<and>
    initErr (forwarded r m s) = initErr s \<and> state (forwarded r m s) = state s \<and>
    transport (forwarded r m s) = transport s \<and> handlers (forwarded r m s) = handlers s \<and>
    client (forwarded r m s) = client s \<and> toolHandlers (forwarded r m s) = toolHandlers s"
    subgoal for r
      by (cases "(r, m, s)" rule: forwarded.cases) simp_all
    done
  show "connected (forward p m s) = connected s"
    "readyOnce (forward p m s) = readyOnce s"
    "readyCh (forward p m s) = readyCh s"
    "closeCh (forward p m s) = closeCh s"
    "closeOnce (forward p m s) = closeOnce s"
    "initErr (forward p m s) = initErr s"
    "state (forward p m s) = state s"
    "transport (forward p m s) = transport s"
    "handlers (forward p m s) = handlers s"
    "client (forward p m s) = client s"
    "toolHandlers (forward p m s) = toolHandlers s"
    by (simp_all add: forward_def *)
qed

lemma ready_signals_quiet: "\<not> ends_handshake m \<Longrightarrow> ready_signals m s = (s, False)"
  by (cases m) simp_all

lemma handleMessage_quiet:
  assumes "\<not> ends_handshake m"
  shows "handleMessage p m s =
     (case m of ToolCallEnvelope c n i \<Rightarrow> handleToolCall c n i s | _ \<Rightarrow> forward p m s)"
  using assms by (simp add: handleMessage_def ready_signals_quiet)

lemma awaiting_quiet:
  assumes "awaiting s" and "quiet (p, rr)" and "length (msgCh s) < msgCh_cap"
  shows "awaiting (readLoop_iter p rr s) \<and>
         length (msgCh (readLoop_iter p rr s)) \<le> Suc (length (msgCh s))"
proof (cases rr)
  case (Message m)
  then have q: "\<not> ends_handshake m" using assms(2) by simp
  have rl: "readLoop_iter p rr s = handleMessage p m s"
    using assms(1) by (simp add: readLoop_iter_def awaiting_def Message)
  show ?thesis
    unfolding rl handleMessage_quiet[OF q]
    using assms(1,3)
    by (cases m) (simp_all add: awaiting_def forward_open)
next
  case (Malformed e)
  then show ?thesis using assms(1) by (simp add: readLoop_iter_def awaiting_def)
next
  case (ReadFailed e)
  then show ?thesis using assms(2) by simp
qed

lemma awaiting_quiet_run:
  assumes "awaiting s" and "list_all quiet pre" and "length (msgCh s) + length pre \<le> msgCh_cap"
  shows "awaiting (readLoop_run pre s) \<and>
         length (msgCh (readLoop_run pre s)) \<le> length (msgCh s) + length pre"
  using assms
proof (induction pre arbitrary: s)
  case Nil
  then show ?case by simp
next
  case (Cons a pre)
  obtain p rr where a: "a = (p, rr)" by (cases a)
  have q: "quiet (p, rr)" and l: "length (msgCh s) < msgCh_cap"
    using Cons.prems by (simp_all add: a)
  note st = awaiting_quiet[OF Cons.prems(1) q l]
  have "awaiting (readLoop_run pre (readLoop_iter p rr s)) \<and>
        length (msgCh (readLoop_run pre (readLoop_iter p rr s)))
          \<le> length (msgCh (readLoop_iter p rr s)) + length pre"
    using Cons.prems st by (intro Cons.IH) simp_all
  then show ?case using st by (simp add: a)
qed

lemma Send_ws_connected:
  assumes "conn t" and "status t \<noteq> StatusConnecting" and "net_ok t" and "marshals m"
  shows "Send_ws m t = (t\<lparr>wire := wire t @ [TextMessage m]\<rparr>, None)"
  using assms by (simp add: Send_ws_def sendImmediate_def)

lemma options_keeps [simp]:
  "options (handleError e s) = options s"
  "options (run_calls cs s) = options s"
  "options (setState st s) = options s"
proof -
  show a: "\<And>e s. options (handleError e s) = options s"
    by (simp add: handleError_def Let_def)
  show "options (run_calls cs s) = options s"
    by (induction cs s rule: run_calls.induct) (simp_all add: handleStatusChange_def a)
  show "options (setState st s) = options s"
    by (simp add: setState_def)
qed

lemma init_envelope_options: "options s' = options s \<Longrightarrow> init_envelope s' = init_envelope s"
  by (simp add: init_envelope_def)

lemma Connect_Dialed_waits:
  assumes "\<not> connected s" and "net_ok (transport s)"
    and "\<not> t_readyOnce (transport s) \<or> t_readyCh (transport s)"
    and "marshals (init_envelope s)"
  shows "\<exists>s3. Connect Dialed arrivals ctx p s = Connect_wait ctx p (readLoop_run arrivals s3) \<and>
      connected s3 = connected s \<and> readyOnce s3 = readyOnce s \<and> readyCh s3 = readyCh s \<and>
      closeCh s3 = closeCh s \<and> closeOnce s3 = closeOnce s \<and> initErr s3 = initErr s \<and>
      parked s3 = parked s \<and> msgCh s3 = msgCh s \<and> sessionID s3 = sessionID s \<and>
      handlers s3 = handlers s \<and> client s3 = client s \<and> toolHandlers s3 = toolHandlers s \<and>
      state s3 = SessionStateInitializing \<and>
      conn (transport s3) \<and> status (transport s3) = StatusConnected \<and> net_ok (transport s3) \<and>
      t_closeCh (transport s3) = t_closeCh (transport s) \<and>
      t_handlers (transport s3) = t_handlers (transport s)"
proof -
  define s1 where "s1 = setState SessionStateInitializing s"
  define cw where "cw = Connect_ws Dialed (transport s1)"
  define s2 where "s2 = run_calls (fst (snd cw)) (s1\<lparr>transport := fst cw\<rparr>)"
  define si where "si = sendInit s2"
  note eq = Connect_unfold[OF assms(1) s1_def cw_def s2_def si_def, of arrivals ctx p]
  have t1: "transport s1 = transport s" by (simp add: s1_def setState_def)
  have r: "snd (snd cw) = None" by (simp add: cw_def Connect_ws_Dialed_result)
  have t2: "transport s2 = fst cw" by (simp add: s2_def)
  have c: "conn (fst cw)" "status (fst cw) = StatusConnected" "net_ok (fst cw)"
    "t_readyCh (fst cw)" "t_closeCh (fst cw) = t_closeCh (transport s)"
    "t_handlers (fst cw) = t_handlers (transport s)"
    using assms(2,3) by (auto simp: cw_def t1 Connect_ws_Dialed_transport)
  have w: "WaitForReady (transport s2) = None"
    by (simp add: WaitForReady_def t2 c)
  have ie: "init_envelope s2 = init_envelope s"
    by (rule init_envelope_options) (simp add: s2_def s1_def setState_def)
  have si': "si = transport_Send (init_envelope s) s2"
    by (simp add: si_def sendInit_def ie)
  have sw: "Send_ws (init_envelope s) (fst cw) =
              ((fst cw)\<lparr>wire := wire (fst cw) @ [TextMessage (init_envelope s)]\<rparr>, None)"
    by (rule Send_ws_connected) (simp_all add: c assms(4))
  have sr: "snd si = None" by (simp add: si' t2 sw)
  have "Connect Dialed arrivals ctx p s = Connect_wait ctx p (readLoop_run arrivals (fst si))"
    by (simp add: eq r w sr)
  moreover have "connected (fst si) = connected s \<and> readyOnce (fst si) = readyOnce s \<and>
      readyCh (fst si) = readyCh s \<and>
      closeCh (fst si) = closeCh s \<and> closeOnce (fst si) = closeOnce s \<and>
      initErr (fst si) = initErr s \<and>
      parked (fst si) = parked s \<and> msgCh (fst si) = msgCh s \<and> sessionID (fst si) = sessionID s \<and>
      handlers (fst si) = handlers s \<and> client (fst si) = client s \<and>
      toolHandlers (fst si) = toolHandlers s \<and>
      state (fst si) = SessionStateInitializing"
    by (simp add: si' s2_def s1_def setState_def)
  moreover have "conn (transport (fst si)) \<and> status (transport (fst si)) = StatusConnected \<and>
      net_ok (transport (fst si)) \<and>
      t_closeCh (transport (fst si)) = t_closeCh (transport s) \<and>
      t_handlers (transport (fst si)) = t_handlers (transport s)"
    by (simp add: si' t2 c)
  ultimately show ?thesis by blast
qed

lemma Connect_Dialed_Init_not_encoded:
  assumes "\<not> connected s" and "\<not> t_readyOnce (transport s) \<or> t_readyCh (transport s)"
    and "\<not> marshals (init_envelope s)"
  shows "snd (Connect Dialed arrivals ctx p s) =
           Returned (Some (ChuckyError ErrCodeProtocol ''failed to marshal message''
                             (Some (External ''json''))))"
    and "state (fst (Connect Dialed arrivals ctx p s)) = SessionStateError"
    and "\<not> connected (fst (Connect Dialed arrivals ctx p s))"
    and "wire (transport (fst (Connect Dialed arrivals ctx p s))) =
           wire (transport s)
           @ map TextMessage (filter (\<lambda>m. marshals m \<and> net_ok (transport s)) (msgQueue (transport s)))"
    and "msgQueue (transport (fst (Connect Dialed arrivals ctx p s))) = []"
proof -
  define s1 where "s1 = setState SessionStateInitializing s"
  define cw where "cw = Connect_ws Dialed (transport s1)"
  define s2 where "s2 = run_calls (fst (snd cw)) (s1\<lparr>transport := fst cw\<rparr>)"
  define si where "si = sendInit s2"
  note eq = Connect_unfold[OF assms(1) s1_def cw_def s2_def si_def, of arrivals ctx p]
  have t1: "transport s1 = transport s" by (simp add: s1_def setState_def)
  have r: "snd (snd cw) = None" by (simp add: cw_def Connect_ws_Dialed_result)
  have t2: "transport s2 = fst cw" by (simp add: s2_def)
  have c: "conn (fst cw)" "status (fst cw) = StatusConnected" "t_readyCh (fst cw)"
    "msgQueue (fst cw) = []"
    "wire (fst cw) = wire (transport s)
       @ map TextMessage (filter (\<lambda>m. marshals m \<and> net_ok (transport s)) (msgQueue (transport s)))"
    using assms(2) by (auto simp: cw_def t1 Connect_ws_Dialed_transport)
  have w: "WaitForReady (transport s2) = None"
    by (simp add: WaitForReady_def t2 c)
  have ie: "init_envelope s2 = init_envelope s"
    by (rule init_envelope_options) (simp add: s2_def s1_def setState_def)
  have sw: "Send_ws (init_envelope s) (fst cw) =
              (fst cw, Some (Wrap (ProtocolError ''failed to marshal message'') (External ''json'')))"
    using assms(3) by (simp add: Send_ws_def sendImmediate_def c)
  have si': "si = (s2, Some (Wrap (ProtocolError ''failed to marshal message'') (External ''json'')))"
    by (simp add: si_def sendInit_def ie transport_Send_def t2 sw)
  have e: "Connect Dialed arrivals ctx p s =
      (setState SessionStateError s2,
       Returned (Some (Wrap (ProtocolError ''failed to marshal message'') (External ''json''))))"
    by (simp add: eq r w si')
  show "snd (Connect Dialed arrivals ctx p s) =
           Returned (Some (ChuckyError ErrCodeProtocol ''failed to marshal message''
                             (Some (External ''json''))))"
    by (simp add: e ProtocolError_def NewChuckyError_def)
  show "state (fst (Connect Dialed arrivals ctx p s)) = SessionStateError"
    by (simp add: e setState_def)
  show "\<not> connected (fst (Connect Dialed arrivals ctx p s))"
    using assms(1) by (simp add: e setState_def s2_def s1_def)
  show "wire (transport (fst (Connect Dialed arrivals ctx p s))) =
           wire (transport s)
           @ map TextMessage (filter (\<lambda>m. marshals m \<and> net_ok (transport s)) (msgQueue (transport s)))"
    by (simp add: e setState_def t2 c)
  show "msgQueue (transport (fst (Connect Dialed arrivals ctx p s))) = []"
    by (simp add: e setState_def t2 c)
qed

lemma Connect_DialFailed:
  assumes "\<not> connected s"
  shows "snd (Connect (DialFailed e) arrivals ctx p s) =
           Returned (Some (ChuckyError ErrCodeConnection ''failed to connect'' (Some (External e))))"
    and "state (fst (Connect (DialFailed e) arrivals ctx p s)) = SessionStateError"
    and "\<not> connected (fst (Connect (DialFailed e) arrivals ctx p s))"
    and "wire (transport (fst (Connect (DialFailed e) arrivals ctx p s))) = wire (transport s)"
    and "msgQueue (transport (fst (Connect (DialFailed e) arrivals ctx p s))) = msgQueue (transport s)"
proof -
  define s1 where "s1 = setState SessionStateInitializing s"
  define cw where "cw = Connect_ws (DialFailed e) (transport s1)"
  define s2 where "s2 = run_calls (fst (snd cw)) (s1\<lparr>transport := fst cw\<rparr>)"
  define si where "si = sendInit s2"
  note eq = Connect_unfold[OF assms(1) s1_def cw_def s2_def si_def, of arrivals ctx p]
  have t1: "transport s1 = transport s" by (simp add: s1_def setState_def)
  have r: "snd (snd cw) =
      Some (ChuckyError ErrCodeConnection ''failed to connect'' (Some (External e)))"
    by (simp add: cw_def Connect_ws_def setStatus_def case_prod_beta ConnectionError_def
        NewChuckyError_def)
  have c: "wire (fst cw) = wire (transport s)" "msgQueue (fst cw) = msgQueue (transport s)"
    by (simp_all add: cw_def t1 Connect_ws_def setStatus_def case_prod_beta)
  have e: "Connect (DialFailed e) arrivals ctx p s =
      (setState SessionStateError s2,
       Returned (Some (ChuckyError ErrCodeConnection ''failed to connect'' (Some (External e)))))"
    by (simp add: eq r)
  show "snd (Connect (DialFailed e) arrivals ctx p s) =
           Returned (Some (ChuckyError ErrCodeConnection ''failed to connect'' (Some (External e))))"
    by (simp add: e)
  show "state (fst (Connect (DialFailed e) arrivals ctx p s)) = SessionStateError"
    by (simp add: e setState_def)
  show "\<not> connected (fst (Connect (DialFailed e) arrivals ctx p s))"
    using assms by (simp add: e setState_def s2_def s1_def)
  show "wire (transport (fst (Connect (DialFailed e) arrivals ctx p s))) = wire (transport s)"
    by (simp add: e setState_def s2_def c)
  show "msgQueue (transport (fst (Connect (DialFailed e) arrivals ctx p s))) = msgQueue (transport s)"
    by (simp add: e setState_def s2_def c)
qed

lemma readLoop_run_append:
  "readLoop_run (xs @ ys) s = readLoop_run ys (readLoop_run xs s)"
  by (induction xs arbitrary: s) auto

lemma signal_ready_keeps [simp]:
  "readyCh (signal_ready s) = (readyOnce s \<longrightarrow> readyCh s)"
  "readyOnce (signal_ready s)"
  "connected (signal_ready s) = connected s"
  "closeCh (signal_ready s) = closeCh s"
  "initErr (signal_ready s) = initErr s"
  "parked (signal_ready s) = parked s"
  "msgCh (signal_ready s) = msgCh s"
  "state (signal_ready s) = state s"
  "transport (signal_ready s) = transport s"
  "handlers (signal_ready s) = handlers s"
  "client (signal_ready s) = client s"
  "toolHandlers (signal_ready s) = toolHandlers s"
  by (simp_all add: signal_ready_def)

subsection \<open>The handshake\<close>

text \<open>
  C5. A session that is not connected and has seen no handshake signal calls \<open>Connect\<close>;
  the dial succeeds, the Init envelope encodes and the socket accepts it. While
  \<open>Connect\<close> waits, the read loop first handles arrivals \<open>pre\<close> that do not end the
  handshake (no Control ready or session_info, no System init, no Error envelope, no read
  failure; few enough to fit the inbound buffer) and then an Error envelope. With a live
  context, \<open>Connect\<close> returns the error with code SESSION_ERROR whose message is the
  message text of that envelope, wrapping nothing; the session state is Error and the
  session is not connected.
\<close>

theorem Error_envelope_fails_Connect:
  assumes "\<not> connected s" and "\<not> readyOnce s" and "\<not> readyCh s" and "\<not> closeCh s"
    and "parked s = None"
    and "\<not> t_closeCh (transport s)" and "has_OnMessage (t_handlers (transport s))"
    and "net_ok (transport s)" and "\<not> t_readyOnce (transport s) \<or> t_readyCh (transport s)"
    and "marshals (init_envelope s)"
    and "list_all quiet pre" and "length (msgCh s) + length pre \<le> msgCh_cap"
  shows "snd (Connect Dialed (pre @ [(p, Message (ErrorEnvelope message code details))])
                None pick s) = Returned (Some (ChuckyError ErrCodeSession message None)) \<and>
         state (fst (Connect Dialed (pre @ [(p, Message (ErrorEnvelope message code details))])
                None pick s)) = SessionStateError \<and>
         \<not> connected (fst (Connect Dialed (pre @ [(p, Message (ErrorEnvelope message code details))])
                None pick s))"
proof -
  let ?arr = "pre @ [(p, Message (ErrorEnvelope message code details))]"
  obtain s3 where eq: "Connect Dialed ?arr None pick s = Connect_wait None pick (readLoop_run ?arr s3)"
    and f: "connected s3 = connected s" "readyOnce s3 = readyOnce s" "readyCh s3 = readyCh s"
      "closeCh s3 = closeCh s" "parked s3 = parked s" "msgCh s3 = msgCh s"
      "conn (transport s3)" "t_closeCh (transport s3) = t_closeCh (transport s)"
      "t_handlers (transport s3) = t_handlers (transport s)"
    using Connect_Dialed_waits[OF assms(1) assms(8) assms(9) assms(10), of ?arr None pick] by blast
  have a3: "awaiting s3"
    using assms f by (simp add: awaiting_def)
  define s4 where "s4 = readLoop_run pre s3"
  have a4: "awaiting s4"
    using awaiting_quiet_run[OF a3 assms(11)] assms(12) by (simp add: s4_def f)
  define s5 where "s5 = readLoop_iter p (Message (ErrorEnvelope message code details)) s4"
  have s5: "s5 = forward p (ErrorEnvelope message code details)
                   (signal_ready (s4\<lparr>initErr := Some (SessionError message)\<rparr>))"
    using a4 by (simp add: s5_def readLoop_iter_def awaiting_def handleMessage_def)
  have g: "readyCh s5" "initErr s5 = Some (SessionError message)" "\<not> closeCh s5"
    "\<not> connected s5"
    using a4 by (simp_all add: s5 awaiting_def)
  have "readLoop_run ?arr s3 = s5"
    by (simp add: readLoop_run_append s4_def s5_def)
  then have "Connect Dialed ?arr None pick s = Connect_wait None pick s5"
    by (simp add: eq)
  also have "\<dots> = (setState SessionStateError s5, Returned (Some (SessionError message)))"
    using g by (simp add: Connect_wait_def)
  finally show ?thesis
    using g(4) by (simp add: setState_def SessionError_def NewChuckyError_def)
qed

theorem Error_envelope_fails_Connect_witness:
  "snd (Connect Dialed
          ([(0, Message (SDKAssistantMessage JNull)), (0, Malformed ''x'')]
           @ [(0, Message (ErrorEnvelope ''budget exceeded'' ''E1'' JNull))])
          None 0 (CreateSession None 0 True NewClient)) =
     Returned (Some (ChuckyError ErrCodeSession ''budget exceeded'' None)) \<and>
   state (fst (Connect Dialed
          ([(0, Message (SDKAssistantMessage JNull)), (0, Malformed ''x'')]
           @ [(0, Message (ErrorEnvelope ''budget exceeded'' ''E1'' JNull))])
          None 0 (CreateSession None 0 True NewClient))) = SessionStateError"
proof -
  let ?s = "CreateSession None 0 True NewClient"
  let ?pre = "[(0, Message (SDKAssistantMessage JNull)), (0, Malformed ''x'')]"
  have h: "\<not> connected ?s" "\<not> readyOnce ?s" "\<not> readyCh ?s" "\<not> closeCh ?s" "parked ?s = None"
    "\<not> t_closeCh (transport ?s)" "has_OnMessage (t_handlers (transport ?s))"
    "net_ok (transport ?s)" "\<not> t_readyOnce (transport ?s) \<or> t_readyCh (transport ?s)"
    "marshals (init_envelope ?s)"
    "list_all quiet ?pre" "length (msgCh ?s) + length ?pre \<le> msgCh_cap"
    by code_simp+
  show ?thesis
    using Error_envelope_fails_Connect[OF h, of 0 "''budget exceeded''" "''E1''" JNull 0]
    by blast
qed

subsection \<open>The handshake signals\<close>

lemma connected_handleMessage_keeps_identity:
  "connected s \<Longrightarrow> sessionID (handleMessage p m s) = sessionID s"
  by (cases m) (simp_all add: handleMessage_def)

lemma Control_ready_completes_Connect:
  assumes "\<not> connected s" and "\<not> readyOnce s" and "\<not> readyCh s" and "\<not> closeCh s"
    and "parked s = None" and "initErr s = None"
    and "\<not> t_closeCh (transport s)" and "has_OnMessage (t_handlers (transport s))"
    and "net_ok (transport s)" and "\<not> t_readyOnce (transport s) \<or> t_readyCh (transport s)"
    and "marshals (init_envelope s)"
    and "c = Connect Dialed [(p, Message (ControlEnvelope ControlActionReady d))] None pick s"
  shows "snd c = Returned None" and "connected (fst c)" and "state (fst c) = SessionStateReady"
    and "sessionID (fst c) = sessionID s"
    and "conn (transport (fst c))" and "status (transport (fst c)) = StatusConnected"
    and "net_ok (transport (fst c))"
proof -
  let ?arr = "[(p, Message (ControlEnvelope ControlActionReady d))]"
  obtain s3 where eq: "Connect Dialed ?arr None pick s = Connect_wait None pick (readLoop_run ?arr s3)"
    and f: "connected s3 = connected s" "readyOnce s3 = readyOnce s" "readyCh s3 = readyCh s"
      "closeCh s3 = closeCh s" "parked s3 = parked s" "initErr s3 = initErr s"
      "sessionID s3 = sessionID s"
      "conn (transport s3)" "status (transport s3) = StatusConnected" "net_ok (transport s3)"
      "t_closeCh (transport s3) = t_closeCh (transport s)"
      "t_handlers (transport s3) = t_handlers (transport s)"
    using Connect_Dialed_waits[OF assms(1) assms(9) assms(10) assms(11), of ?arr None pick] by blast
  define s4 where "s4 = readLoop_run ?arr s3"
  have s4: "s4 = signal_ready s3"
    using assms f by (simp add: s4_def readLoop_iter_def handleMessage_def)
  have g: "readyCh s4" "initErr s4 = None" "\<not> closeCh s4" "sessionID s4 = sessionID s"
    "transport s4 = transport s3"
    using assms f by (simp_all add: s4)
  have c: "c = Connect_wait None pick s4"
    by (simp add: assms(12) eq s4_def)
  show "snd c = Returned None" and "connected (fst c)" and "state (fst c) = SessionStateReady"
    and "sessionID (fst c) = sessionID s"
    using g by (simp_all add: c Connect_wait_def Let_def setState_def)
  have "transport (fst c) = transport s3"
    using g by (simp add: c Connect_wait_def Let_def setState_def)
  then show "conn (transport (fst c))" and "status (transport (fst c)) = StatusConnected"
    and "net_ok (transport (fst c))"
    using f by simp_all
qed

lemma System_init_completes_Connect:
  assumes "\<not> connected s" and "\<not> readyOnce s" and "\<not> readyCh s" and "\<not> closeCh s"
    and "parked s = None" and "initErr s = None"
    and "\<not> t_closeCh (transport s)" and "has_OnMessage (t_handlers (transport s))"
    and "net_ok (transport s)" and "\<not> t_readyOnce (transport s) \<or> t_readyCh (transport s)"
    and "marshals (init_envelope s)"
    and "c = Connect Dialed [(p, Message (SDKSystemMessage SystemSubtypeInit u sid d))] None pick s"
  shows "snd c = Returned None" and "connected (fst c)" and "state (fst c) = SessionStateReady"
    and "sessionID (fst c) = (if sid = [] then sessionID s else sid)"
    and "conn (transport (fst c))" and "status (transport (fst c)) = StatusConnected"
    and "net_ok (transport (fst c))"
proof -
  let ?m = "SDKSystemMessage SystemSubtypeInit u sid d"
  let ?arr = "[(p, Message ?m)]"
  obtain s3 where eq: "Connect Dialed ?arr None pick s = Connect_wait None pick (readLoop_run ?arr s3)"
    and f: "connected s3 = connected s" "readyOnce s3 = readyOnce s" "readyCh s3 = readyCh s"
      "closeCh s3 = closeCh s" "parked s3 = parked s" "initErr s3 = initErr s"
      "sessionID s3 = sessionID s"
      "conn (transport s3)" "status (transport s3) = StatusConnected" "net_ok (transport s3)"
      "t_closeCh (transport s3) = t_closeCh (transport s)"
      "t_handlers (transport s3) = t_handlers (transport s)"
    using Connect_Dialed_waits[OF assms(1) assms(9) assms(10) assms(11), of ?arr None pick] by blast
  define s4 where "s4 = readLoop_run ?arr s3"
  have s4: "s4 = forward p ?m (signal_ready (if sid \<noteq> [] then s3\<lparr>sessionID := sid\<rparr> else s3))"
    using assms f by (simp add: s4_def readLoop_iter_def handleMessage_def)
  have g: "readyCh s4" "initErr s4 = None" "\<not> closeCh s4"
    "sessionID s4 = (if sid = [] then sessionID s else sid)"
    "transport s4 = transport s3"
    using assms f by (simp_all add: s4)
  have c: "c = Connect_wait None pick s4"
    by (simp add: assms(12) eq s4_def)
  show "snd c = Returned None" and "connected (fst c)" and "state (fst c) = SessionStateReady"
    and "sessionID (fst c) = (if sid = [] then sessionID s else sid)"
    using g by (simp_all add: c Connect_wait_def Let_def setState_def)
  have "transport (fst c) = transport s3"
    using g by (simp add: c Connect_wait_def Let_def setState_def)
  then show "conn (transport (fst c))" and "status (transport (fst c)) = StatusConnected"
    and "net_ok (transport (fst c))"
    using f by simp_all
qed

subsection \<open>The identity after the handshake\<close>

text \<open>
  C1. A new session calls \<open>Connect\<close>; the dial succeeds, and while \<open>Connect\<close> waits the
  only arrival is a Control envelope with action ready. \<open>Connect\<close> returns nil from that
  signal alone, connected and in state Ready, the identity still empty. A System message
  of subtype init with session identity \<open>abc\<close> that the read loop handles after that is
  put on the inbound stream, but the session identity stays empty: \<open>handleMessage\<close>
  reads the identity of a System init message only while the session is not connected.
\<close>

theorem init_after_Connect_does_not_set_identity:
  "snd (Connect Dialed [(0, Message (ControlEnvelope ''ready'' JNull))] None 0
          (CreateSession None 0 True NewClient)) = Returned None \<and>
   connected (fst (Connect Dialed [(0, Message (ControlEnvelope ''ready'' JNull))] None 0
          (CreateSession None 0 True NewClient))) \<and>
   state (fst (Connect Dialed [(0, Message (ControlEnvelope ''ready'' JNull))] None 0
          (CreateSession None 0 True NewClient))) = SessionStateReady \<and>
   sessionID (readLoop_iter 0 (Message (SDKSystemMessage ''init'' ''u1'' ''abc'' JNull))
     (fst (Connect Dialed [(0, Message (ControlEnvelope ''ready'' JNull))] None 0
          (CreateSession None 0 True NewClient)))) = [] \<and>
   msgCh (readLoop_iter 0 (Message (SDKSystemMessage ''init'' ''u1'' ''abc'' JNull))
     (fst (Connect Dialed [(0, Message (ControlEnvelope ''ready'' JNull))] None 0
          (CreateSession None 0 True NewClient)))) = [SDKSystemMessage ''init'' ''u1'' ''abc'' JNull]"
  by code_simp

theorem init_after_Connect_does_not_set_identity_witness:
  "sessionID (readLoop_iter 0 (Message (SDKSystemMessage ''init'' ''u1'' ''abc'' JNull))
     (fst (Connect Dialed [(0, Message (ControlEnvelope ''ready'' JNull))] None 0
          (CreateSession None 0 True NewClient)))) \<noteq> ''abc''"
  using init_after_Connect_does_not_set_identity by simp

subsection \<open>The client's registry\<close>

text \<open>
  C2. A client creates a session, at address 7, and registers it under the identity it
  has then, the empty string. During \<open>Connect\<close> a System init message assigns the
  identity \<open>abc\<close>. \<open>Close\<close> then deletes the key \<open>abc\<close> from the registry, and the session
  stays registered under the empty key.
\<close>

theorem Close_after_identity_assigned_leaves_session_registered:
  "sessions (client (CreateSession None 7 True NewClient)) [] = Some 7 \<and>
   sessionID (fst (Connect Dialed [(0, Message (SDKSystemMessage ''init'' ''u1'' ''abc'' JNull))]
                None 0 (CreateSession None 7 True NewClient))) = ''abc'' \<and>
   snd (Connect Dialed [(0, Message (SDKSystemMessage ''init'' ''u1'' ''abc'' JNull))]
                None 0 (CreateSession None 7 True NewClient)) = Returned None \<and>
   sessions (client (Close (fst (Connect Dialed
       [(0, Message (SDKSystemMessage ''init'' ''u1'' ''abc'' JNull))]
       None 0 (CreateSession None 7 True NewClient))))) [] = Some 7 \<and>
   closeOnce (Close (fst (Connect Dialed
       [(0, Message (SDKSystemMessage ''init'' ''u1'' ''abc'' JNull))]
       None 0 (CreateSession None 7 True NewClient)))) \<and>
   sessions (client (Close (CreateSession None 7 True NewClient))) [] = None"
  by code_simp

theorem Close_after_identity_assigned_leaves_session_registered_witness:
  "7 \<in> ran (sessions (client (Close (fst (Connect Dialed
       [(0, Message (SDKSystemMessage ''init'' ''u1'' ''abc'' JNull))]
       None 0 (CreateSession None 7 True NewClient))))))"
  using Close_after_identity_assigned_leaves_session_registered by (auto simp: ran_def)

subsection \<open>Send after a Result\<close>

lemma Send_connected:
  assumes "connected s"
  shows "Send dial arrivals ctx pick uuid message s =
     (s\<lparr>state := SessionStateProcessing,
        transport := fst (Send_ws (SDKUserMessage uuid
                       (if sessionID s = [] then ''unknown'' else sessionID s) RoleUser message)
                     (transport s))\<rparr>,
      Returned (snd (Send_ws (SDKUserMessage uuid
                       (if sessionID s = [] then ''unknown'' else sessionID s) RoleUser message)
                     (transport s))))"
  using assms
  by (simp add: Send_def Let_def setState_def transport_Send_def case_prod_beta)

text \<open>
  C10. On a connected session in state Completed, \<open>Send\<close> makes no \<open>Connect\<close> and does
  not look at the state: it sets the state to Processing, passes a new User envelope to
  the transport's \<open>Send\<close> and returns what that returns, which is the same whatever the
  state was. When the transport is connected and the socket accepts the write, \<open>Send\<close>
  returns nil and the envelope is the next frame on the socket.
\<close>

theorem Send_on_Completed_session:
  assumes "connected s" and "state s = SessionStateCompleted"
  shows "(let msg = SDKUserMessage uuid (if sessionID s = [] then ''unknown'' else sessionID s)
                      RoleUser message;
              r = Send dial arrivals ctx pick uuid message s
          in state (fst r) = SessionStateProcessing \<and>
             transport (fst r) = fst (Send_ws msg (transport s)) \<and>
             snd r = Returned (snd (Send_ws msg (transport s))) \<and>
             snd r = snd (Send dial arrivals ctx pick uuid message (s\<lparr>state := st\<rparr>)) \<and>
             (conn (transport s) \<and> status (transport s) \<noteq> StatusConnecting
                \<and> net_ok (transport s) \<longrightarrow>
                snd r = Returned None \<and>
                wire (transport (fst r)) = wire (transport s) @ [TextMessage msg]))"
proof -
  have c: "connected (s\<lparr>state := st\<rparr>)" using assms(1) by simp
  show ?thesis
    by (simp add: Let_def Send_connected[OF assms(1)] Send_connected[OF c]
        Send_ws_def sendImmediate_def)
qed

theorem Send_on_Completed_session_witness:
  "state (fst (Stream_iter 0 0 False True
      (readLoop_iter 0 (Message (SDKResultMessage JNull))
         (fst (Send Dialed [(0, Message (ControlEnvelope ''ready'' JNull))] None 0 ''u1'' ''hi''
            (CreateSession None 0 True NewClient))), Stream))) = SessionStateCompleted \<and>
   state (fst (Send Dialed [] None 0 ''u2'' ''again''
     (fst (Stream_iter 0 0 False True
      (readLoop_iter 0 (Message (SDKResultMessage JNull))
         (fst (Send Dialed [(0, Message (ControlEnvelope ''ready'' JNull))] None 0 ''u1'' ''hi''
            (CreateSession None 0 True NewClient))), Stream))))) = SessionStateProcessing \<and>
   snd (Send Dialed [] None 0 ''u2'' ''again''
     (fst (Stream_iter 0 0 False True
      (readLoop_iter 0 (Message (SDKResultMessage JNull))
         (fst (Send Dialed [(0, Message (ControlEnvelope ''ready'' JNull))] None 0 ''u1'' ''hi''
            (CreateSession None 0 True NewClient))), Stream)))) = Returned None"
proof -
  let ?s = "fst (Stream_iter 0 0 False True
      (readLoop_iter 0 (Message (SDKResultMessage JNull))
         (fst (Send Dialed [(0, Message (ControlEnvelope ''ready'' JNull))] None 0 ''u1'' ''hi''
            (CreateSession None 0 True NewClient))), Stream))"
  have h1: "connected ?s" and h2: "state ?s = SessionStateCompleted"
    and h3: "conn (transport ?s) \<and> status (transport ?s) \<noteq> StatusConnecting \<and> net_ok (transport ?s)"
    by code_simp+
  note t = Send_on_Completed_session[OF h1 h2, of "''u2''" "''again''" Dialed "[]" None 0
      SessionStateCompleted, unfolded Let_def]
  show ?thesis
    using h2 h3 t by blast
qed

subsection \<open>Send before Connect\<close>

lemma Send_after_Connect_error:
  assumes "\<not> connected s" and "snd (Connect dial arrivals ctx pick s) = Returned (Some err)"
  shows "Send dial arrivals ctx pick uuid message s =
           (fst (Connect dial arrivals ctx pick s), Returned (Some err))"
proof -
  define c where "c = Connect dial arrivals ctx pick s"
  have c': "c = (if \<not> connected s then Connect dial arrivals ctx pick s else (s, Returned None))"
    using assms(1) by (simp add: c_def)
  show ?thesis
    using assms(2) by (simp add: Send_unfold[OF c', of uuid message] c_def[symmetric])
qed

lemma Send_after_Connect_nil:
  assumes "\<not> connected s" and "c = Connect dial arrivals ctx pick s"
    and "snd c = Returned None"
    and "conn (transport (fst c))" and "status (transport (fst c)) = StatusConnected"
    and "net_ok (transport (fst c))"
    and "r = Send dial arrivals ctx pick uuid message s"
  shows "snd r = Returned None" and "state (fst r) = SessionStateProcessing"
    and "sessionID (fst r) = sessionID (fst c)"
    and "last (wire (transport (fst r))) =
           TextMessage (SDKUserMessage uuid
             (if sessionID (fst c) = [] then ''unknown'' else sessionID (fst c)) RoleUser message)"
proof -
  have c': "c = (if \<not> connected s then Connect dial arrivals ctx pick s else (s, Returned None))"
    using assms(1,2) by simp
  note su = Send_unfold[OF c', of uuid message, folded assms(7)]
  show "snd r = Returned None" and "state (fst r) = SessionStateProcessing"
    and "sessionID (fst r) = sessionID (fst c)"
    and "last (wire (transport (fst r))) =
           TextMessage (SDKUserMessage uuid
             (if sessionID (fst c) = [] then ''unknown'' else sessionID (fst c)) RoleUser message)"
    using assms(3,4,5,6)
    by (simp_all add: su Let_def setState_def Send_ws_def sendImmediate_def)
qed

text \<open>
  C9. \<open>Send\<close> on a session that is not connected first makes the \<open>Connect\<close> call. While
  that call is blocked so is \<open>Send\<close>; when it returns an error, \<open>Send\<close> returns that
  error and leaves the session as \<open>Connect\<close> left it; when it returns nil, \<open>Send\<close> sets
  the state to Processing and passes to the transport's \<open>Send\<close> a User envelope whose
  session identity is the identity the session has then, or \<open>unknown\<close> when that is
  empty, and returns what the transport returns. In particular:
  when the dial fails, \<open>Send\<close> returns the connection error, the state is Error and
  nothing is written or queued;
  when the dial succeeds and the Init envelope does not encode (an option holds a value
  that \<open>json.Marshal\<close> rejects), \<open>Send\<close> returns the protocol error, the state is Error
  and no User envelope is written or queued;
  when the session has seen no handshake signal, the dial succeeds, the Init envelope
  encodes, the socket accepts writes and a Control envelope with action ready arrives
  during the wait, \<open>Send\<close> returns nil, the state is Processing and the last frame on
  the socket is the User envelope with the session's identity, or \<open>unknown\<close> when it has
  none;
  and when instead a System init message with a non-empty identity arrives during the
  wait, the User envelope carries that identity.
\<close>

theorem Send_connects_first:
  assumes "\<not> connected s"
  shows "(let c = Connect dial arrivals ctx pick s;
              r = Send dial arrivals ctx pick uuid message s;
              msg = SDKUserMessage uuid
                      (if sessionID (fst c) = [] then ''unknown'' else sessionID (fst c))
                      RoleUser message
          in (snd c = Blocked \<longrightarrow> r = (fst c, Blocked)) \<and>
             (\<forall>err. snd c = Returned (Some err) \<longrightarrow> r = (fst c, Returned (Some err))) \<and>
             (snd c = Returned None \<longrightarrow>
                state (fst r) = SessionStateProcessing \<and>
                sessionID (fst r) = sessionID (fst c) \<and>
                transport (fst r) = fst (Send_ws msg (transport (fst c))) \<and>
                snd r = Returned (snd (Send_ws msg (transport (fst c)))))) \<and>
         (let r = Send (DialFailed e) arrivals ctx pick uuid message s
          in snd r = Returned (Some (ChuckyError ErrCodeConnection ''failed to connect''
                                       (Some (External e)))) \<and>
             state (fst r) = SessionStateError \<and>
             wire (transport (fst r)) = wire (transport s) \<and>
             msgQueue (transport (fst r)) = msgQueue (transport s)) \<and>
         ((\<not> t_readyOnce (transport s) \<or> t_readyCh (transport s)) \<and>
          \<not> marshals (init_envelope s) \<longrightarrow>
            (let r = Send Dialed arrivals ctx pick uuid message s
             in snd r = Returned (Some (ChuckyError ErrCodeProtocol ''failed to marshal message''
                                          (Some (External ''json'')))) \<and>
                state (fst r) = SessionStateError \<and>
                wire (transport (fst r)) =
                  wire (transport s)
                  @ map TextMessage (filter (\<lambda>m. marshals m \<and> net_ok (transport s))
                                       (msgQueue (transport s))) \<and>
                msgQueue (transport (fst r)) = [])) \<and>
         (before_handshake s \<and> net_ok (transport s) \<and> marshals (init_envelope s) \<longrightarrow>
            (let r = Send Dialed [(p, Message (ControlEnvelope ControlActionReady d))] None pick
                       uuid message s
             in snd r = Returned None \<and>
                state (fst r) = SessionStateProcessing \<and>
                sessionID (fst r) = sessionID s \<and>
                last (wire (transport (fst r))) =
                  TextMessage (SDKUserMessage uuid
                    (if sessionID s = [] then ''unknown'' else sessionID s) RoleUser message)) \<and>
            (sid \<noteq> [] \<longrightarrow>
               (let r = Send Dialed [(p, Message (SDKSystemMessage SystemSubtypeInit u sid d))]
                          None pick uuid message s
                in snd r = Returned None \<and>
                   state (fst r) = SessionStateProcessing \<and>
                   sessionID (fst r) = sid \<and>
                   last (wire (transport (fst r))) =
                     TextMessage (SDKUserMessage uuid sid RoleUser message))))"
proof (intro conjI impI)
  define c where "c = Connect dial arrivals ctx pick s"
  have c': "c = (if \<not> connected s then Connect dial arrivals ctx pick s else (s, Returned None))"
    using assms by (simp add: c_def)
  note su = Send_unfold[OF c', of uuid message]
  show "let c = Connect dial arrivals ctx pick s;
              r = Send dial arrivals ctx pick uuid message s;
              msg = SDKUserMessage uuid
                      (if sessionID (fst c) = [] then ''unknown'' else sessionID (fst c))
                      RoleUser message
          in (snd c = Blocked \<longrightarrow> r = (fst c, Blocked)) \<and>
             (\<forall>err. snd c = Returned (Some err) \<longrightarrow> r = (fst c, Returned (Some err))) \<and>
             (snd c = Returned None \<longrightarrow>
                state (fst r) = SessionStateProcessing \<and>
                sessionID (fst r) = sessionID (fst c) \<and>
                transport (fst r) = fst (Send_ws msg (transport (fst c))) \<and>
                snd r = Returned (snd (Send_ws msg (transport (fst c)))))"
    unfolding Let_def c_def[symmetric]
    by (cases "snd c") (auto simp: su Let_def setState_def)
next
  note f = Connect_DialFailed[OF assms, of e arrivals ctx pick]
  show "let r = Send (DialFailed e) arrivals ctx pick uuid message s
        in snd r = Returned (Some (ChuckyError ErrCodeConnection ''failed to connect''
                                     (Some (External e)))) \<and>
           state (fst r) = SessionStateError \<and>
           wire (transport (fst r)) = wire (transport s) \<and>
           msgQueue (transport (fst r)) = msgQueue (transport s)"
    by (simp add: Let_def Send_after_Connect_error[OF assms f(1)] f)
next
  assume h: "(\<not> t_readyOnce (transport s) \<or> t_readyCh (transport s)) \<and>
             \<not> marshals (init_envelope s)"
  note f = Connect_Dialed_Init_not_encoded[OF assms conjunct1[OF h] conjunct2[OF h],
      of arrivals ctx pick]
  show "let r = Send Dialed arrivals ctx pick uuid message s
        in snd r = Returned (Some (ChuckyError ErrCodeProtocol ''failed to marshal message''
                                     (Some (External ''json'')))) \<and>
           state (fst r) = SessionStateError \<and>
           wire (transport (fst r)) =
             wire (transport s)
             @ map TextMessage (filter (\<lambda>m. marshals m \<and> net_ok (transport s))
                                  (msgQueue (transport s))) \<and>
           msgQueue (transport (fst r)) = []"
    by (simp add: Let_def Send_after_Connect_error[OF assms f(1)] f)
next
  assume h: "before_handshake s \<and> net_ok (transport s) \<and> marshals (init_envelope s)"
  then have b: "\<not> readyOnce s" "\<not> readyCh s" "\<not> closeCh s" "parked s = None" "initErr s = None"
    "\<not> t_closeCh (transport s)" "has_OnMessage (t_handlers (transport s))"
    "net_ok (transport s)" "\<not> t_readyOnce (transport s) \<or> t_readyCh (transport s)"
    "marshals (init_envelope s)"
    by (simp_all add: before_handshake_def)
  note k = Control_ready_completes_Connect[OF assms b refl, of p d pick]
  note n = Send_after_Connect_nil[OF assms refl k(1,5,6,7) refl, of uuid message]
  show "let r = Send Dialed [(p, Message (ControlEnvelope ControlActionReady d))] None pick
                  uuid message s
        in snd r = Returned None \<and>
           state (fst r) = SessionStateProcessing \<and>
           sessionID (fst r) = sessionID s \<and>
           last (wire (transport (fst r))) =
             TextMessage (SDKUserMessage uuid
               (if sessionID s = [] then ''unknown'' else sessionID s) RoleUser message)"
    using n by (simp add: Let_def k(4))
next
  assume h: "before_handshake s \<and> net_ok (transport s) \<and> marshals (init_envelope s)"
    and sid: "sid \<noteq> []"
  then have b: "\<not> readyOnce s" "\<not> readyCh s" "\<not> closeCh s" "parked s = None" "initErr s = None"
    "\<not> t_closeCh (transport s)" "has_OnMessage (t_handlers (transport s))"
    "net_ok (transport s)" "\<not> t_readyOnce (transport s) \<or> t_readyCh (transport s)"
    "marshals (init_envelope s)"
    by (simp_all add: before_handshake_def)
  note k = System_init_completes_Connect[OF assms b refl, of p u sid d pick]
  note n = Send_after_Connect_nil[OF assms refl k(1,5,6,7) refl, of uuid message]
  show "let r = Send Dialed [(p, Message (SDKSystemMessage SystemSubtypeInit u sid d))]
                  None pick uuid message s
        in snd r = Returned None \<and>
           state (fst r) = SessionStateProcessing \<and>
           sessionID (fst r) = sid \<and>
           last (wire (transport (fst r))) =
             TextMessage (SDKUserMessage uuid sid RoleUser message)"
    using n sid by (simp add: Let_def k(4))
qed

theorem Send_connects_first_witness:
  "snd (Send (DialFailed ''refused'') [] None 0 ''u1'' ''hi'' (CreateSession None 0 True NewClient)) =
     Returned (Some (ChuckyError ErrCodeConnection ''failed to connect''
                       (Some (External ''refused'')))) \<and>
   snd (Send Dialed [] None 0 ''u1'' ''hi''
          (CreateSession (Some (empty_SessionOptions\<lparr>o_MaxBudgetUsd := PosInf\<rparr>)) 0 True NewClient)) =
     Returned (Some (ChuckyError ErrCodeProtocol ''failed to marshal message''
                       (Some (External ''json'')))) \<and>
   snd (Send Dialed [(0, Message (ControlEnvelope ControlActionReady JNull))] None 0 ''u1'' ''hi''
          (CreateSession None 0 True NewClient)) = Returned None \<and>
   last (wire (transport (fst (Send Dialed [(0, Message (ControlEnvelope ControlActionReady JNull))]
                 None 0 ''u1'' ''hi'' (CreateSession None 0 True NewClient))))) =
     TextMessage (SDKUserMessage ''u1'' ''unknown'' RoleUser ''hi'') \<and>
   last (wire (transport (fst (Send Dialed
                 [(0, Message (SDKSystemMessage SystemSubtypeInit ''u0'' ''abc'' JNull))]
                 None 0 ''u1'' ''hi'' (CreateSession None 0 True NewClient))))) =
     TextMessage (SDKUserMessage ''u1'' ''abc'' RoleUser ''hi'')"
proof -
  let ?s = "CreateSession None 0 True NewClient"
  let ?b = "CreateSession (Some (empty_SessionOptions\<lparr>o_MaxBudgetUsd := PosInf\<rparr>)) 0 True NewClient"
  have n: "\<not> connected ?s" and nb: "\<not> connected ?b" by code_simp+
  have h: "before_handshake ?s \<and> net_ok (transport ?s) \<and> marshals (init_envelope ?s)"
    by code_simp
  have hb: "(\<not> t_readyOnce (transport ?b) \<or> t_readyCh (transport ?b)) \<and>
            \<not> marshals (init_envelope ?b)"
    by code_simp
  have i: "sessionID ?s = []" by code_simp
  have a: "''abc'' \<noteq> ([] :: string)" by simp
  note t = Send_connects_first[OF n, where dial = Dialed and arrivals = "[]" and ctx = None
      and pick = 0 and uuid = "''u1''" and message = "''hi''" and p = 0 and d = JNull
      and e = "''refused''" and u = "''u0''" and sid = "''abc''", unfolded Let_def]
  note tb = Send_connects_first[OF nb, where dial = Dialed and arrivals = "[]" and ctx = None
      and pick = 0 and uuid = "''u1''" and message = "''hi''" and p = 0 and d = JNull
      and e = "''refused''" and u = "''u0''" and sid = "''abc''", unfolded Let_def]
  have 1: "snd (Send (DialFailed ''refused'') [] None 0 ''u1'' ''hi'' ?s) =
     Returned (Some (ChuckyError ErrCodeConnection ''failed to connect''
                       (Some (External ''refused''))))"
    using t by blast
  have 2: "snd (Send Dialed [] None 0 ''u1'' ''hi'' ?b) =
     Returned (Some (ChuckyError ErrCodeProtocol ''failed to marshal message''
                       (Some (External ''json''))))"
    using tb hb by blast
  have 3: "snd (Send Dialed [(0, Message (ControlEnvelope ControlActionReady JNull))] None 0
                  ''u1'' ''hi'' ?s) = Returned None \<and>
     last (wire (transport (fst (Send Dialed [(0, Message (ControlEnvelope ControlActionReady JNull))]
                 None 0 ''u1'' ''hi'' ?s)))) =
     TextMessage (SDKUserMessage ''u1'' (if sessionID ?s = [] then ''unknown'' else sessionID ?s)
                    RoleUser ''hi'')"
    using t h by blast
  have 4: "last (wire (transport (fst (Send Dialed
                 [(0, Message (SDKSystemMessage SystemSubtypeInit ''u0'' ''abc'' JNull))]
                 None 0 ''u1'' ''hi'' ?s)))) =
     TextMessage (SDKUserMessage ''u1'' ''abc'' RoleUser ''hi'')"
    using t h a by blast
  show ?thesis
    using 1 2 3 4 by (simp only: i if_True simp_thms)
qed

subsection \<open>Stream ends on the Result\<close>

lemma ready_signals_keeps [simp]:
  "connected (fst (ready_signals m s)) = connected s"
  "closeCh (fst (ready_signals m s)) = closeCh s"
  "parked (fst (ready_signals m s)) = parked s"
  "msgCh (fst (ready_signals m s)) = msgCh s"
  "transport (fst (ready_signals m s)) = transport s"
  "state (fst (ready_signals m s)) = state s"
  by (cases m; simp)+

lemma handleMessage_split:
  "handleMessage p m s =
     (let s1 = (if connected s then s else fst (ready_signals m s))
      in if \<not> surfaced (connected s) m
         then (case m of ToolCallEnvelope c n i \<Rightarrow> handleToolCall c n i s1 | _ \<Rightarrow> s1)
         else forward p m s1)"
  by (cases m) (auto simp: handleMessage_def Let_def split: prod.splits)

lemma handleMessage_link [simp]:
  "link (transport (handleMessage p m s)) = link (transport s)"
  "t_handlers (transport (handleMessage p m s)) = t_handlers (transport s)"
  "closeCh (handleMessage p m s) = closeCh s"
  "connected (handleMessage p m s) = connected s"
  by (cases m; simp add: handleMessage_split Let_def link_def)+

lemma handleMessage_buffers:
  assumes "parked s = None" and "\<not> closeCh s"
  shows "msgCh (handleMessage p m s) =
           (if surfaced (connected s) m \<and> length (msgCh s) < msgCh_cap
            then msgCh s @ [m] else msgCh s)"
    and "parked (handleMessage p m s) =
           (if surfaced (connected s) m \<and> \<not> length (msgCh s) < msgCh_cap
            then Some m else None)"
  using assms
  by (cases m; simp add: handleMessage_split Let_def forward_open)+

lemma Stream_iter_closed: "out_closed g \<Longrightarrow> Stream_iter q q' c k (s, g) = (s, g)"
  by (simp add: Stream_iter_def)

lemma readLoop_iter_Message:
  assumes "conn (transport s)" and "\<not> t_closeCh (transport s)" and "parked s = None"
    and "has_OnMessage (t_handlers (transport s))"
  shows "readLoop_iter p (Message m) s = handleMessage p m s"
  using assms by (simp add: readLoop_iter_def)

lemma msgCh_cap_pos: "\<not> length xs < msgCh_cap \<Longrightarrow> xs \<noteq> []"
  by (auto simp: msgCh_cap_def)

lemma tick_read:
  assumes "flowing (inbox, s, g)"
  shows "tick (ReadNext p) (inbox, s, g) = (inbox, s, g) \<and> (inbox = [] \<or> parked s \<noteq> None) \<or>
         (flowing (tick (ReadNext p) (inbox, s, g)) \<and>
          work (tick (ReadNext p) (inbox, s, g)) < work (inbox, s, g) \<and>
          task_of (tick (ReadNext p) (inbox, s, g)) = g \<and>
          pipeline (tick (ReadNext p) (inbox, s, g)) = pipeline (inbox, s, g) \<and>
          link (transport (session_of (tick (ReadNext p) (inbox, s, g)))) = link (transport s))"
proof (cases inbox)
  case Nil
  then show ?thesis by simp
next
  case (Cons m rest)
  show ?thesis
  proof (cases "parked s")
    case (Some a)
    then show ?thesis by (simp add: Cons)
  next
    case None
    have f: "\<not> closeCh s" "conn (transport s)" "\<not> t_closeCh (transport s)"
      "has_OnMessage (t_handlers (transport s))" "\<not> out_closed g"
      using assms by (simp_all add: flowing_def session_of_def task_of_def)
    have t: "tick (ReadNext p) (inbox, s, g) = (rest, handleMessage p m s, g)"
      using f None by (simp add: Cons readLoop_iter_Message)
    note b = handleMessage_buffers[OF None f(1), of p m]
    have l: "link (transport (handleMessage p m s)) = link (transport s)" by simp
    have c: "conn (transport (handleMessage p m s))" "\<not> t_closeCh (transport (handleMessage p m s))"
      using l f by (simp_all add: link_def)
    have "flowing (rest, handleMessage p m s, g)"
      using f c b by (auto simp: flowing_def session_of_def task_of_def dest: msgCh_cap_pos)
    moreover have "work (rest, handleMessage p m s, g) < work (inbox, s, g)"
      using b None by (simp add: work_def session_of_def task_of_def Cons)
    moreover have "pipeline (rest, handleMessage p m s, g) = pipeline (inbox, s, g)"
      using b None by (simp add: pipeline_def session_of_def task_of_def Cons)
    ultimately show ?thesis
      unfolding t by (simp add: task_of_def session_of_def)
  qed
qed

lemma Stream_hand_open:
  assumes "\<not> closeCh s"
  shows "Stream_hand q' False k m (s, g) =
     (if k then
        (if is_Result m
         then (setState SessionStateCompleted s,
               g\<lparr>out := out g @ [m], held := None, out_closed := True\<rparr>)
         else (s, g\<lparr>out := out g @ [m], held := None\<rparr>))
      else (s, g\<lparr>held := Some m\<rparr>))"
  using assms by (simp add: Stream_hand_def)

lemma Stream_iter_open:
  assumes "\<not> closeCh s" and "\<not> out_closed g"
  shows "Stream_iter q q' False k (s, g) =
     (case held g of
        Some m \<Rightarrow> Stream_hand q' False k m (s, g)
      | None \<Rightarrow>
          (case msgCh s of
             [] \<Rightarrow> (s, g)
           | m # rest \<Rightarrow> Stream_hand q' False k m (received s, g)))"
  using assms
  by (simp add: Stream_iter_def recv_msgCh_def received_def split: option.splits list.splits)

lemma received_keeps [simp]:
  "closeCh (received s) = closeCh s"
  "connected (received s) = connected s"
  "transport (received s) = transport s"
  "parked (received s) = None"
  "msgCh (received s) = tl (msgCh s) @ (case parked s of None \<Rightarrow> [] | Some p \<Rightarrow> [p])"
  by (simp_all add: received_def split: option.splits)

lemma tick_stream:
  assumes "flowing (inbox, s, g)"
  shows "(tick (StreamNext q q' k) (inbox, s, g) = (inbox, s, g) \<and>
          (k \<longrightarrow> held g = None \<and> msgCh s = [])) \<or>
         (flowing (tick (StreamNext q q' k) (inbox, s, g)) \<and>
          work (tick (StreamNext q q' k) (inbox, s, g)) < work (inbox, s, g) \<and>
          out (task_of (tick (StreamNext q q' k) (inbox, s, g))) = out g \<and>
          pipeline (tick (StreamNext q q' k) (inbox, s, g)) = pipeline (inbox, s, g) \<and>
          link (transport (session_of (tick (StreamNext q q' k) (inbox, s, g)))) =
            link (transport s)) \<or>
         (\<exists>m. pipeline (inbox, s, g) = m # pipeline (tick (StreamNext q q' k) (inbox, s, g)) \<and>
              out (task_of (tick (StreamNext q q' k) (inbox, s, g))) = out g @ [m] \<and>
              work (tick (StreamNext q q' k) (inbox, s, g)) < work (inbox, s, g) \<and>
              link (transport (session_of (tick (StreamNext q q' k) (inbox, s, g)))) =
                link (transport s) \<and>
              \<not> closeCh (session_of (tick (StreamNext q q' k) (inbox, s, g))) \<and>
              (if is_Result m
               then out_closed (task_of (tick (StreamNext q q' k) (inbox, s, g))) \<and>
                    state (session_of (tick (StreamNext q q' k) (inbox, s, g))) =
                      SessionStateCompleted
               else flowing (tick (StreamNext q q' k) (inbox, s, g))))"
proof -
  have f: "\<not> closeCh s" "conn (transport s)" "\<not> t_closeCh (transport s)"
    "has_OnMessage (t_handlers (transport s))" "\<not> out_closed g"
    "parked s = None \<or> msgCh s \<noteq> []"
    using assms by (simp_all add: flowing_def session_of_def task_of_def)
  note si = Stream_iter_open[OF f(1) f(5), of q q' k]
  show ?thesis
  proof (cases "held g")
    case (Some m)
    have t: "tick (StreamNext q q' k) (inbox, s, g) =
       (if k then
          (if is_Result m
           then (inbox, setState SessionStateCompleted s,
                 g\<lparr>out := out g @ [m], held := None, out_closed := True\<rparr>)
           else (inbox, s, g\<lparr>out := out g @ [m], held := None\<rparr>))
        else (inbox, s, g))"
      using Some by (simp add: si Stream_hand_open[OF f(1)])
    show ?thesis
      unfolding t using f Some
      by (simp add: flowing_def work_def pipeline_def session_of_def task_of_def setState_def)
  next
    case None
    show ?thesis
    proof (cases "msgCh s")
      case Nil
      have t: "tick (StreamNext q q' k) (inbox, s, g) = (inbox, s, g)"
        using None Nil by (simp add: si)
      show ?thesis unfolding t using None Nil by simp
    next
      case (Cons m rest)
      have r: "\<not> closeCh (received s)" using f(1) by simp
      have t: "tick (StreamNext q q' k) (inbox, s, g) =
         (if k then
            (if is_Result m
             then (inbox, setState SessionStateCompleted (received s),
                   g\<lparr>out := out g @ [m], held := None, out_closed := True\<rparr>)
             else (inbox, received s, g\<lparr>out := out g @ [m], held := None\<rparr>))
          else (inbox, received s, g\<lparr>held := Some m\<rparr>))"
        using None Cons by (simp add: si Stream_hand_open[OF r])
      show ?thesis
        unfolding t using f None Cons
        by (cases "parked s")
           (simp_all add: flowing_def work_def pipeline_def session_of_def task_of_def
              setState_def)
    qed
  qed
qed

lemma upto_Result_Cons:
  "upto_Result (m # xs) = (if is_Result m then [m] else m # upto_Result xs)"
  by (simp add: upto_Result_def)

lemma upto_Result_append:
  "\<not> list_ex is_Result xs \<Longrightarrow> upto_Result (xs @ ys) = xs @ upto_Result ys"
  by (induction xs) (simp_all add: upto_Result_Cons)

lemma readLoop_iter_Message_keeps [simp]:
  "link (transport (readLoop_iter p (Message m) s)) = link (transport s)"
  "closeCh (readLoop_iter p (Message m) s) = closeCh s"
  by (simp_all add: readLoop_iter_def)

lemma tick_closed:
  assumes "out_closed (task_of x)"
  shows "task_of (tick e x) = task_of x"
    and "closeCh (session_of (tick e x)) = closeCh (session_of x)"
    and "link (transport (session_of (tick e x))) = link (transport (session_of x))"
    and "state (session_of (tick e x)) = state (session_of x) \<or> is_read e"
proof -
  obtain inbox s g where x: "x = (inbox, s, g)" by (cases x) auto
  have c: "out_closed g" using assms by (simp add: x task_of_def)
  show "task_of (tick e x) = task_of x"
    and "closeCh (session_of (tick e x)) = closeCh (session_of x)"
    and "link (transport (session_of (tick e x))) = link (transport (session_of x))"
    and "state (session_of (tick e x)) = state (session_of x) \<or> is_read e"
    using c
    by (cases e; simp add: x task_of_def session_of_def Stream_iter_closed split: list.splits)+
qed

lemma ticks_closed:
  assumes "out_closed (task_of x)"
  shows "task_of (ticks es x) = task_of x \<and>
         closeCh (session_of (ticks es x)) = closeCh (session_of x) \<and>
         link (transport (session_of (ticks es x))) = link (transport (session_of x))"
  using assms
proof (induction es arbitrary: x)
  case Nil
  show ?case by simp
next
  case (Cons e es)
  note t = tick_closed[OF Cons.prems, of e]
  have "out_closed (task_of (tick e x))" using t(1) Cons.prems by simp
  from Cons.IH[OF this] show ?case using t by simp
qed

lemma tick_flowing:
  assumes "flowing x"
  shows "(tick e x = x \<and> (is_read e \<longrightarrow> fst x = [] \<or> parked (session_of x) \<noteq> None) \<and>
            (is_take e \<longrightarrow> held (task_of x) = None \<and> msgCh (session_of x) = [])) \<or>
         (flowing (tick e x) \<and> work (tick e x) < work x \<and>
          out (task_of (tick e x)) = out (task_of x) \<and> pipeline (tick e x) = pipeline x \<and>
          link (transport (session_of (tick e x))) = link (transport (session_of x))) \<or>
         (\<exists>m. pipeline x = m # pipeline (tick e x) \<and>
              out (task_of (tick e x)) = out (task_of x) @ [m] \<and>
              work (tick e x) < work x \<and>
              link (transport (session_of (tick e x))) = link (transport (session_of x)) \<and>
              \<not> closeCh (session_of (tick e x)) \<and>
              (if is_Result m
               then out_closed (task_of (tick e x)) \<and>
                    state (session_of (tick e x)) = SessionStateCompleted
               else flowing (tick e x)))"
proof -
  obtain inbox s g where x: "x = (inbox, s, g)" by (cases x) auto
  show ?thesis
  proof (cases e)
    case (ReadNext p)
    show ?thesis
      using tick_read[OF assms[unfolded x], of p]
      unfolding x ReadNext by (auto simp: session_of_def task_of_def simp del: tick.simps)
  next
    case (StreamNext q q' k)
    show ?thesis
      using tick_stream[OF assms[unfolded x], of q q' k]
      unfolding x StreamNext by (auto simp: session_of_def task_of_def simp del: tick.simps)
  qed
qed

lemma ticks_append: "ticks (a @ b) x = ticks b (ticks a x)"
  by (induction a arbitrary: x) simp_all

lemma ticks_idle: "\<forall>e \<in> set a. tick e x = x \<Longrightarrow> ticks a x = x"
  by (induction a) simp_all

lemma Stream_going_Nil: "flowing x \<Longrightarrow> Stream_going x []"
  by (simp add: Stream_going_def)

lemma Stream_ended_append:
  assumes "Stream_ended x a"
  shows "Stream_ended x (a @ b)"
proof -
  let ?y = "ticks a x"
  have c: "out_closed (task_of ?y)" using assms by (simp add: Stream_ended_def)
  note k = ticks_closed[OF c, of b]
  obtain n where n: "n \<le> length a" "out_closed (task_of (ticks (take n a) x))"
    "state (session_of (ticks (take n a) x)) = SessionStateCompleted"
    using assms unfolding Stream_ended_def by blast
  have "n \<le> length (a @ b) \<and> out_closed (task_of (ticks (take n (a @ b)) x)) \<and>
        state (session_of (ticks (take n (a @ b)) x)) = SessionStateCompleted"
    using n by simp
  then have ex: "\<exists>n \<le> length (a @ b). out_closed (task_of (ticks (take n (a @ b)) x)) \<and>
        state (session_of (ticks (take n (a @ b)) x)) = SessionStateCompleted"
    by blast
  show ?thesis
    unfolding Stream_ended_def
    using assms k ex by (simp add: Stream_ended_def ticks_append)
qed

lemma Stream_going_ended:
  assumes "Stream_going x a" and "Stream_ended (ticks a x) b"
  shows "Stream_ended x (a @ b)"
proof -
  let ?y = "ticks a x"
  obtain xs where xs: "out (task_of ?y) = out (task_of x) @ xs"
    "pipeline x = xs @ pipeline ?y" "\<not> list_ex is_Result xs"
    using assms(1) unfolding Stream_going_def by blast
  have l: "link (transport (session_of ?y)) = link (transport (session_of x))"
    using assms(1) by (simp add: Stream_going_def)
  obtain n where n: "n \<le> length b" "out_closed (task_of (ticks (take n b) ?y))"
    "state (session_of (ticks (take n b) ?y)) = SessionStateCompleted"
    using assms(2) unfolding Stream_ended_def by blast
  have "length a + n \<le> length (a @ b) \<and>
        out_closed (task_of (ticks (take (length a + n) (a @ b)) x)) \<and>
        state (session_of (ticks (take (length a + n) (a @ b)) x)) = SessionStateCompleted"
    using n by (simp add: ticks_append)
  then have ex: "\<exists>n \<le> length (a @ b). out_closed (task_of (ticks (take n (a @ b)) x)) \<and>
        state (session_of (ticks (take n (a @ b)) x)) = SessionStateCompleted"
    by blast
  have o: "out (task_of (ticks (a @ b) x)) = out (task_of x) @ upto_Result (pipeline x)"
    using assms(2) xs by (simp add: Stream_ended_def ticks_append upto_Result_append)
  show ?thesis
    unfolding Stream_ended_def
    using assms(2) l ex o by (simp add: Stream_ended_def ticks_append)
qed

lemma Stream_going_going:
  assumes "Stream_going x a" and "Stream_going (ticks a x) b"
  shows "Stream_going x (a @ b)"
proof -
  let ?y = "ticks a x"
  let ?z = "ticks b ?y"
  obtain xs where xs: "out (task_of ?y) = out (task_of x) @ xs"
    "pipeline x = xs @ pipeline ?y" "\<not> list_ex is_Result xs"
    using assms(1) unfolding Stream_going_def by blast
  obtain ys where ys: "out (task_of ?z) = out (task_of ?y) @ ys"
    "pipeline ?y = ys @ pipeline ?z" "\<not> list_ex is_Result ys"
    using assms(2) unfolding Stream_going_def by blast
  have "out (task_of ?z) = out (task_of x) @ (xs @ ys) \<and>
        pipeline x = (xs @ ys) @ pipeline ?z \<and> \<not> list_ex is_Result (xs @ ys)"
    using xs ys by simp
  then have ex: "\<exists>zs. out (task_of ?z) = out (task_of x) @ zs \<and>
        pipeline x = zs @ pipeline ?z \<and> \<not> list_ex is_Result zs"
    by blast
  have w1: "work ?y \<le> work x" and w2: "work ?z \<le> work ?y"
    using assms by (simp_all add: Stream_going_def)
  have idle: "\<forall>e \<in> set (a @ b). tick e x = x" if eq: "work ?z = work x"
  proof -
    have "work ?y = work x" using w1 w2 eq by simp
    then have ia: "\<forall>e \<in> set a. tick e x = x" using assms(1) by (simp add: Stream_going_def)
    then have yx: "?y = x" by (rule ticks_idle)
    have "work ?z = work ?y" using eq yx by simp
    then have "\<forall>e \<in> set b. tick e ?y = ?y" using assms(2) by (simp add: Stream_going_def)
    then show ?thesis using ia yx by auto
  qed
  have f: "flowing ?z" using assms(2) by (simp add: Stream_going_def)
  have l: "link (transport (session_of ?z)) = link (transport (session_of x))"
    using assms by (simp add: Stream_going_def)
  show ?thesis
    unfolding Stream_going_def ticks_append
    using f w1 w2 ex l idle by (simp add: ticks_append)
qed

lemma tick_going_or_ended:
  assumes "flowing x"
  shows "Stream_going x [e] \<or> Stream_ended x [e]"
proof -
  let ?y = "tick e x"
  consider
    (idle) "?y = x"
  | (silent) "flowing ?y" "work ?y < work x" "out (task_of ?y) = out (task_of x)"
      "pipeline ?y = pipeline x"
      "link (transport (session_of ?y)) = link (transport (session_of x))"
  | (handed) m where "pipeline x = m # pipeline ?y" "out (task_of ?y) = out (task_of x) @ [m]"
      "work ?y < work x" "link (transport (session_of ?y)) = link (transport (session_of x))"
      "\<not> closeCh (session_of ?y)"
      "if is_Result m
       then out_closed (task_of ?y) \<and> state (session_of ?y) = SessionStateCompleted
       else flowing ?y"
    using tick_flowing[OF assms, of e] by blast
  then show ?thesis
  proof cases
    case idle
    then have "Stream_going x [e]" using assms by (simp add: Stream_going_def)
    then show ?thesis ..
  next
    case silent
    then have "Stream_going x [e]" by (simp add: Stream_going_def)
    then show ?thesis ..
  next
    case (handed m)
    show ?thesis
    proof (cases "is_Result m")
      case True
      have "(1::nat) \<le> length [e] \<and> out_closed (task_of (ticks (take 1 [e]) x)) \<and>
            state (session_of (ticks (take 1 [e]) x)) = SessionStateCompleted"
        using handed True by simp
      then have "\<exists>n \<le> length [e]. out_closed (task_of (ticks (take n [e]) x)) \<and>
            state (session_of (ticks (take n [e]) x)) = SessionStateCompleted"
        by blast
      then have "Stream_ended x [e]"
        unfolding Stream_ended_def using handed True by (simp add: upto_Result_Cons)
      then show ?thesis ..
    next
      case False
      have "out (task_of ?y) = out (task_of x) @ [m] \<and> pipeline x = [m] @ pipeline ?y \<and>
            \<not> list_ex is_Result [m]"
        using handed False by simp
      then have "\<exists>xs. out (task_of ?y) = out (task_of x) @ xs \<and> pipeline x = xs @ pipeline ?y \<and>
            \<not> list_ex is_Result xs"
        by blast
      then have "Stream_going x [e]"
        unfolding Stream_going_def using handed False by simp
      then show ?thesis ..
    qed
  qed
qed

lemma ticks_flowing:
  assumes "flowing x"
  shows "Stream_going x es \<or> Stream_ended x es"
  using assms
proof (induction es arbitrary: x)
  case Nil
  then show ?case by (simp add: Stream_going_Nil)
next
  case (Cons e es)
  from tick_going_or_ended[OF Cons.prems, of e]
  show ?case
  proof
    assume g: "Stream_going x [e]"
    then have "flowing (ticks [e] x)" by (simp add: Stream_going_def)
    from Cons.IH[OF this] show ?thesis
    proof
      assume "Stream_going (ticks [e] x) es"
      from Stream_going_going[OF g this] show ?thesis by simp
    next
      assume "Stream_ended (ticks [e] x) es"
      from Stream_going_ended[OF g this] show ?thesis by simp
    qed
  next
    assume "Stream_ended x [e]"
    from Stream_ended_append[OF this, of es] show ?thesis by simp
  qed
qed

lemma work_0_pipeline: "work x = 0 \<Longrightarrow> pipeline x = []"
  by (simp add: work_def pipeline_def split: option.splits)

lemma fair_round_progress:
  assumes "flowing x" and "list_ex is_Result (pipeline x)" and "fair_round r"
  shows "Stream_ended x r \<or> (Stream_going x r \<and> work (ticks r x) < work x)"
proof -
  from ticks_flowing[OF assms(1), of r] show ?thesis
  proof
    assume g: "Stream_going x r"
    have "work (ticks r x) \<noteq> work x"
    proof
      assume "work (ticks r x) = work x"
      then have idle: "\<forall>e \<in> set r. tick e x = x" using g by (simp add: Stream_going_def)
      obtain e1 e2 where e: "e1 \<in> set r" "is_read e1" "e2 \<in> set r" "is_take e2"
        using assms(3) unfolding fair_round_def list_ex_iff by blast
      have i1: "tick e1 x = x" and i2: "tick e2 x = x" using idle e by auto
      have a: "fst x = [] \<or> parked (session_of x) \<noteq> None"
        using tick_flowing[OF assms(1), of e1] e(2) i1 by auto
      have b: "held (task_of x) = None \<and> msgCh (session_of x) = []"
        using tick_flowing[OF assms(1), of e2] e(4) i2 by auto
      have "parked (session_of x) = None" using assms(1) b by (simp add: flowing_def)
      then have "pipeline x = []" using a b by (simp add: pipeline_def)
      then show False using assms(2) by simp
    qed
    moreover have "work (ticks r x) \<le> work x" using g by (simp add: Stream_going_def)
    ultimately show ?thesis using g by simp
  next
    assume "Stream_ended x r"
    then show ?thesis ..
  qed
qed

lemma fair_rounds_end:
  assumes "flowing x" and "list_ex is_Result (pipeline x)"
    and "list_all fair_round rounds" and "work x \<le> length rounds"
  shows "Stream_ended x (concat rounds)"
  using assms
proof (induction rounds arbitrary: x)
  case Nil
  then have "pipeline x = []" by (simp add: work_0_pipeline)
  then show ?case using Nil.prems(2) by simp
next
  case (Cons r rs)
  have fr: "fair_round r" and frs: "list_all fair_round rs" using Cons.prems(3) by simp_all
  from fair_round_progress[OF Cons.prems(1,2) fr] show ?case
  proof
    assume "Stream_ended x r"
    from Stream_ended_append[OF this, of "concat rs"] show ?thesis by simp
  next
    assume a: "Stream_going x r \<and> work (ticks r x) < work x"
    then have g: "Stream_going x r" and w: "work (ticks r x) \<le> length rs"
      using Cons.prems(4) by simp_all
    have f: "flowing (ticks r x)" using g by (simp add: Stream_going_def)
    obtain xs where xs: "pipeline x = xs @ pipeline (ticks r x)" "\<not> list_ex is_Result xs"
      using g unfolding Stream_going_def by blast
    have p: "list_ex is_Result (pipeline (ticks r x))" using Cons.prems(2) xs by simp
    from Stream_going_ended[OF g Cons.IH[OF f p frs w]] show ?thesis by simp
  qed
qed

text \<open>The steps of the pipeline are steps of a run of the session with this one goroutine.\<close>

lemma tick_StreamNext_step:
  "tick (StreamNext q q' k) (inbox, s, g) =
     (inbox, fst (step (StreamStep 0 q q' False k) (s, [g])),
      hd (snd (step (StreamStep 0 q q' False k) (s, [g]))))"
  by (simp add: case_prod_beta)

lemma tick_ReadNext_step:
  "tick (ReadNext p) (msg # inbox, s, g) =
     (if t_closeCh (transport s) \<or> \<not> conn (transport s) \<or> parked s \<noteq> None
      then (msg # inbox, s, g)
      else (inbox, fst (step (Read p (Message msg)) (s, [g])), g))"
  by simp

text \<open>
  C8. A session is open and its read loop runs on a transport that is not disconnected;
  the inbound buffer \<open>msgCh\<close> holds anything (the read loop may even be blocked on it,
  when it is full); one \<open>Stream\<close> call is active, with a live context; and a Result
  message is on its way: among the message the goroutine holds, the buffer, the message
  of the blocked read loop and the messages \<open>inbox\<close> that the socket will deliver. The
  read loop and the goroutine then run in any interleaving and with any choices of their
  \<open>select\<close> statements, as long as it is fair: the schedule is made of rounds, each
  letting the read loop make an iteration and the goroutine make a step while its
  consumer receives, at least as many rounds as the work that remains. Then at the end
  of the schedule the goroutine has returned (its channel is closed); the consumer has
  received, after what it had, the messages that were on their way, in order, up to and
  with the first Result message, and nothing after it; the session is not closed; the
  transport has the handle, status and close flag it had: it is not disconnected; and
  at some point of the schedule the goroutine had returned and the state was Completed.
\<close>

theorem Stream_forwards_Result_then_ends:
  assumes "\<not> out_closed g" and "\<not> closeCh s"
    and "conn (transport s)" and "\<not> t_closeCh (transport s)"
    and "has_OnMessage (t_handlers (transport s))"
    and "parked s = None \<or> msgCh s \<noteq> []"
    and "list_ex is_Result (pipeline (inbox, s, g))"
    and "list_all fair_round rounds"
    and "work (inbox, s, g) \<le> length rounds"
  shows "(let es = concat rounds;
              x = ticks es (inbox, s, g)
          in out_closed (task_of x) \<and>
             out (task_of x) = out g @ upto_Result (pipeline (inbox, s, g)) \<and>
             \<not> closeCh (session_of x) \<and>
             link (transport (session_of x)) = link (transport s) \<and>
             (\<exists>n \<le> length es.
                out_closed (task_of (ticks (take n es) (inbox, s, g))) \<and>
                state (session_of (ticks (take n es) (inbox, s, g))) = SessionStateCompleted))"
proof -
  have f: "flowing (inbox, s, g)"
    using assms(1-6) by (simp add: flowing_def task_of_def session_of_def)
  from fair_rounds_end[OF f assms(7,8,9)]
  show ?thesis
    unfolding Let_def Stream_ended_def by (simp add: task_of_def session_of_def)
qed

theorem Stream_forwards_Result_then_ends_witness:
  "out_closed (task_of (ticks (concat (replicate 14 [StreamNext 1 2 True, ReadNext 3, StreamNext 0 0 False]))
     ([SDKAssistantMessage JNull, ToolCallEnvelope ''c1'' ''nope'' JNull,
       SDKResultMessage (JStr ''done''), SDKAssistantMessage (JStr ''late'')],
      fst (Send Dialed [(0, Message (SDKSystemMessage SystemSubtypeInit ''u0'' ''sess-1'' JNull))]
             None 0 ''u1'' ''hi'' (CreateSession None 0 True NewClient)),
      Stream))) \<and>
   out (task_of (ticks (concat (replicate 14 [StreamNext 1 2 True, ReadNext 3, StreamNext 0 0 False]))
     ([SDKAssistantMessage JNull, ToolCallEnvelope ''c1'' ''nope'' JNull,
       SDKResultMessage (JStr ''done''), SDKAssistantMessage (JStr ''late'')],
      fst (Send Dialed [(0, Message (SDKSystemMessage SystemSubtypeInit ''u0'' ''sess-1'' JNull))]
             None 0 ''u1'' ''hi'' (CreateSession None 0 True NewClient)),
      Stream))) =
     [SDKSystemMessage SystemSubtypeInit ''u0'' ''sess-1'' JNull, SDKAssistantMessage JNull,
      SDKResultMessage (JStr ''done'')] \<and>
   link (transport (session_of (ticks (concat (replicate 14 [StreamNext 1 2 True, ReadNext 3, StreamNext 0 0 False]))
     ([SDKAssistantMessage JNull, ToolCallEnvelope ''c1'' ''nope'' JNull,
       SDKResultMessage (JStr ''done''), SDKAssistantMessage (JStr ''late'')],
      fst (Send Dialed [(0, Message (SDKSystemMessage SystemSubtypeInit ''u0'' ''sess-1'' JNull))]
             None 0 ''u1'' ''hi'' (CreateSession None 0 True NewClient)),
      Stream)))) = (True, StatusConnected, False)"
proof -
  let ?s = "fst (Send Dialed [(0, Message (SDKSystemMessage SystemSubtypeInit ''u0'' ''sess-1'' JNull))]
             None 0 ''u1'' ''hi'' (CreateSession None 0 True NewClient))"
  let ?inbox = "[SDKAssistantMessage JNull, ToolCallEnvelope ''c1'' ''nope'' JNull,
       SDKResultMessage (JStr ''done''), SDKAssistantMessage (JStr ''late'')]"
  let ?rounds = "replicate 14 [StreamNext 1 2 True, ReadNext 3, StreamNext 0 0 False]"
  have h: "\<not> out_closed Stream" "\<not> closeCh ?s" "conn (transport ?s)"
    "\<not> t_closeCh (transport ?s)" "has_OnMessage (t_handlers (transport ?s))"
    "parked ?s = None \<or> msgCh ?s \<noteq> []"
    "list_ex is_Result (pipeline (?inbox, ?s, Stream))"
    "list_all fair_round ?rounds"
    "work (?inbox, ?s, Stream) \<le> length ?rounds"
    by code_simp+
  have l: "link (transport ?s) = (True, StatusConnected, False)"
    and o: "out Stream = []"
    and u: "upto_Result (pipeline (?inbox, ?s, Stream)) =
      [SDKSystemMessage SystemSubtypeInit ''u0'' ''sess-1'' JNull, SDKAssistantMessage JNull,
       SDKResultMessage (JStr ''done'')]"
    by code_simp+
  note t = Stream_forwards_Result_then_ends[OF h, unfolded Let_def]
  show ?thesis
    using t by (simp only: l o u append.simps simp_thms)
qed

end
